theory Spec2Isabelle
  imports Complex_Main "HOL-Library.AList"
begin

section \<open>Parameter maps and the model interface\<close>

text \<open>
  Positions, momenta and gradients are JavaScript objects from variable names to
  numbers. They are association lists here, in key order; \<open>Object.keys\<close> is the list of
  first components and \<open>obj[name]\<close> is \<open>map_of obj name\<close>, with \<open>None\<close> for
  \<open>undefined\<close>. Numbers are exact reals: the floating-point values NaN and the
  infinities are outside the embedding, except for the NaN that a missing key produces
  in \<open>isUTurn\<close>, which is written out.
\<close>

type_synonym params = "(string \<times> real) list"

definition objectKeys :: "params \<Rightarrow> string list" where
  "objectKeys obj = map fst obj"

text \<open>The only exception the sampler code can meet: a tensor operation given \<open>undefined\<close>.\<close>

datatype error = TensorArgumentError

text \<open>
  The model is an external collaborator: \<open>logProb\<close>, the \<open>gradients\<close> part of
  \<open>logProbAndGradient\<close>, and \<open>getFreeVariableNames\<close>. All three are parameters.
\<close>

record model =
  logProb :: "params \<Rightarrow> real"
  gradients :: "params \<Rightarrow> params"
  freeVariableNames :: "string list"

text \<open>
  The random sources: the \<open>k\<close>-th call of \<open>Math.random()\<close> returns \<open>random k\<close>, the
  \<open>k\<close>-th call of \<open>tf.randomNormal([])\<close> returns \<open>randomNormal k\<close>.
\<close>

record rng =
  random :: "nat \<Rightarrow> real"
  randomNormal :: "nat \<Rightarrow> real"

section \<open>The leapfrog integrator\<close>

text \<open>
  One loop of \<open>leapfrog\<close>: \<open>for (const name of variableNames) out[name] =
  tf.add(a[name], tf.mul(c, b[name]))\<close>. Either operand missing makes the tensor
  library throw.
\<close>

fun addMul :: "string list \<Rightarrow> params \<Rightarrow> real \<Rightarrow> params \<Rightarrow> error + params" where
  "addMul [] a c b = Inr []"
| "addMul (name # names) a c b =
     (case (map_of a name, map_of b name) of
        (Some x, Some y) \<Rightarrow>
          (case addMul names a c b of
             Inl e \<Rightarrow> Inl e
           | Inr out \<Rightarrow> Inr ((name, x + c * y) # out))
      | _ \<Rightarrow> Inl TensorArgumentError)"

definition leapfrog :: "model \<Rightarrow> params \<Rightarrow> params \<Rightarrow> real \<Rightarrow> error + (params \<times> params)" where
  "leapfrog mdl position momentum stepSize =
     (let variableNames = objectKeys position;
          grad1 = gradients mdl position
      in case addMul variableNames momentum (stepSize / 2) grad1 of
           Inl e \<Rightarrow> Inl e
         | Inr pHalf \<Rightarrow>
             (case addMul variableNames position stepSize pHalf of
                Inl e \<Rightarrow> Inl e
              | Inr qNew \<Rightarrow>
                  (let grad2 = gradients mdl qNew
                   in case addMul variableNames pHalf (stepSize / 2) grad2 of
                        Inl e \<Rightarrow> Inl e
                      | Inr pNew \<Rightarrow> Inr (qNew, pNew))))"

text \<open>Momentum negation, the operation the reversibility property speaks of.\<close>

definition negate :: "params \<Rightarrow> params" where
  "negate p = map (\<lambda>(name, v). (name, - v)) p"

text \<open>
  A standard normal target, without the additive constant of its log-density: the
  gradient is \<open>-q\<close> in every component.
\<close>

definition stdNormal :: model where
  "stdNormal = \<lparr> logProb = (\<lambda>q. - (\<Sum>(name, v)\<leftarrow>q. v * v / 2)),
                 gradients = (\<lambda>q. map (\<lambda>(name, v). (name, - v)) q),
                 freeVariableNames = [''x''] \<rparr>"

section \<open>The Hamiltonian\<close>

text \<open>
  \<open>kineticEnergy += 0.5 * p * p\<close> over \<open>Object.keys(momentum)\<close>; every key read is a key
  of the object, so the \<open>None\<close> branch is never taken.
\<close>

definition hamiltonian :: "model \<Rightarrow> params \<Rightarrow> params \<Rightarrow> real" where
  "hamiltonian mdl position momentum =
     (let kineticEnergy =
            foldl (\<lambda>k name. case map_of momentum name of
                               Some p \<Rightarrow> k + 0.5 * p * p
                             | None \<Rightarrow> k)
                  0 (objectKeys momentum)
      in - logProb mdl position + kineticEnergy)"

section \<open>The U-turn test\<close>

text \<open>
  The accumulator of a dot-product loop; \<open>None\<close> is NaN, which a missing key produces
  (\<open>undefined - x\<close>, \<open>x * undefined\<close>) and which every later addition keeps.
\<close>

fun dotDelta :: "string list \<Rightarrow> params \<Rightarrow> params \<Rightarrow> params \<Rightarrow> real option \<Rightarrow> real option" where
  "dotDelta [] positionMinus positionPlus mom acc = acc"
| "dotDelta (name # names) positionMinus positionPlus mom acc =
     dotDelta names positionMinus positionPlus mom
       (case (acc, map_of positionPlus name, map_of positionMinus name, map_of mom name) of
          (Some d, Some tp, Some tm, Some m) \<Rightarrow> Some (d + (tp - tm) * m)
        | _ \<Rightarrow> None)"

text \<open>\<open>d < 0\<close> on a JavaScript number: false for NaN.\<close>

definition isNegative :: "real option \<Rightarrow> bool" where
  "isNegative d = (case d of None \<Rightarrow> False | Some v \<Rightarrow> v < 0)"

definition isUTurn :: "params \<Rightarrow> params \<Rightarrow> params \<Rightarrow> params \<Rightarrow> bool" where
  "isUTurn positionMinus positionPlus momentumMinus momentumPlus =
     (let variableNames = objectKeys positionMinus;
          dotPlus = dotDelta variableNames positionMinus positionPlus momentumPlus (Some 0);
          dotMinus = dotDelta variableNames positionMinus positionPlus momentumMinus (Some 0)
      in isNegative dotPlus \<or> isNegative dotMinus)"

section \<open>The trajectory tree builder\<close>

record tree =
  positionMinus :: params
  positionPlus :: params
  momentumMinus :: params
  momentumPlus :: params
  positionPrime :: params
  nValid :: nat
  stop :: bool
  alpha :: real
  nAlpha :: nat

text \<open>
  What the sampler consumes and does outside its own variables: how many draws it has
  taken from each random source, and the signed step size of every call of
  \<open>leapfrog\<close> so far, oldest first.
\<close>

record io =
  nRandom :: nat
  nNormal :: nat
  leapfrogCalls :: "real list"

definition deltaMax :: real where
  "deltaMax = 1000"

text \<open>
  \<open>direction\<close> is \<open>1\<close> or \<open>-1\<close>; the code tests \<open>direction === 1\<close>. \<open>depth\<close> is a
  natural number: \<open>sample\<close> counts it up from \<open>0\<close>.
\<close>

fun buildTree ::
  "model \<Rightarrow> rng \<Rightarrow> params \<Rightarrow> params \<Rightarrow> real \<Rightarrow> int \<Rightarrow> nat \<Rightarrow> real \<Rightarrow> real \<Rightarrow> io
     \<Rightarrow> (error + tree) \<times> io" where
  "buildTree mdl g position momentum slice direction 0 stepSize H0 s =
     (let s1 = s\<lparr>leapfrogCalls := leapfrogCalls s @ [of_int direction * stepSize]\<rparr>
      in case leapfrog mdl position momentum (of_int direction * stepSize) of
           Inl e \<Rightarrow> (Inl e, s1)
         | Inr (positionNew, momentumNew) \<Rightarrow>
             (let H = hamiltonian mdl positionNew momentumNew;
                  valid = (slice \<le> exp (H0 - H))
              in (Inr \<lparr> positionMinus = positionNew,
                        positionPlus = positionNew,
                        momentumMinus = momentumNew,
                        momentumPlus = momentumNew,
                        positionPrime = positionNew,
                        nValid = (if valid then 1 else 0),
                        stop = (\<not> valid \<or> (H0 - H) > deltaMax),
                        alpha = min 1 (exp (H0 - H)),
                        nAlpha = 1 \<rparr>, s1)))"
| "buildTree mdl g position momentum slice direction (Suc depth) stepSize H0 s =
     (case buildTree mdl g position momentum slice direction depth stepSize H0 s of
        (Inl e, s1) \<Rightarrow> (Inl e, s1)
      | (Inr tree1, s1) \<Rightarrow>
          if stop tree1 then (Inr tree1, s1)
          else
            (let position2 = (if direction = 1 then positionPlus tree1 else positionMinus tree1);
                 momentum2 = (if direction = 1 then momentumPlus tree1 else momentumMinus tree1)
             in case buildTree mdl g position2 momentum2 slice direction depth stepSize H0 s1 of
                  (Inl e, s2) \<Rightarrow> (Inl e, s2)
                | (Inr tree2, s2) \<Rightarrow>
                    (let pMinus = (if direction = 1 then positionMinus tree1 else positionMinus tree2);
                         pPlus = (if direction = 1 then positionPlus tree2 else positionPlus tree1);
                         mMinus = (if direction = 1 then momentumMinus tree1 else momentumMinus tree2);
                         mPlus = (if direction = 1 then momentumPlus tree2 else momentumPlus tree1);
                         uTurn = isUTurn pMinus pPlus mMinus mPlus;
                         acceptProb = real (nValid tree2) / real (max (nValid tree1 + nValid tree2) 1);
                         r = random g (nRandom s2);
                         s3 = s2\<lparr>nRandom := Suc (nRandom s2)\<rparr>
                     in (Inr \<lparr> positionMinus = pMinus,
                               positionPlus = pPlus,
                               momentumMinus = mMinus,
                               momentumPlus = mPlus,
                               positionPrime =
                                 (if r < acceptProb then positionPrime tree2 else positionPrime tree1),
                               nValid = nValid tree1 + nValid tree2,
                               stop = (stop tree1 \<or> stop tree2 \<or> uTurn),
                               alpha = alpha tree1 + alpha tree2,
                               nAlpha = nAlpha tree1 + nAlpha tree2 \<rparr>, s3))))"

section \<open>The sampler objects\<close>

text \<open>
  The fields of a \<open>NUTS\<close> instance. \<open>maxTreeDepth\<close> is an integer; \<open>sample\<close> only
  compares it with the depth counter.
\<close>

record nuts =
  stepSize :: real
  maxTreeDepth :: int
  targetAcceptance :: real
  mu :: real
  gamma :: real
  t0 :: real
  kappa :: real

text \<open>
  The constructor; an argument left out (\<open>None\<close>) takes its default. It has no
  statement that can throw, so it always returns the object. For a step size that is
  not positive \<open>Math.log\<close> gives NaN or minus infinity, which \<open>mu\<close> does not express.
\<close>

definition NUTS_constructor :: "real option \<Rightarrow> int option \<Rightarrow> real option \<Rightarrow> error + nuts" where
  "NUTS_constructor stepSizeArg maxTreeDepthArg targetAcceptanceArg =
     (let stepSize0 = (case stepSizeArg of None \<Rightarrow> 0.01 | Some v \<Rightarrow> v);
          maxTreeDepth0 = (case maxTreeDepthArg of None \<Rightarrow> 10 | Some v \<Rightarrow> v);
          targetAcceptance0 = (case targetAcceptanceArg of None \<Rightarrow> 0.8 | Some v \<Rightarrow> v)
      in Inr \<lparr> stepSize = stepSize0,
               maxTreeDepth = maxTreeDepth0,
               targetAcceptance = targetAcceptance0,
               mu = ln (10 * stepSize0),
               gamma = 0.05,
               t0 = 10,
               kappa = 0.75 \<rparr>)"

record hamiltonianMC =
  hmcStepSize :: real
  nSteps :: int

definition HamiltonianMC_constructor :: "real option \<Rightarrow> int option \<Rightarrow> error + hamiltonianMC" where
  "HamiltonianMC_constructor stepSizeArg nStepsArg =
     Inr \<lparr> hmcStepSize = (case stepSizeArg of None \<Rightarrow> 0.01 | Some v \<Rightarrow> v),
           nSteps = (case nStepsArg of None \<Rightarrow> 10 | Some v \<Rightarrow> v) \<rparr>"

section \<open>The doubling loop of one outer iteration\<close>

text \<open>The local variables of the \<open>while\<close> loop in \<open>sample\<close>.\<close>

record doubling =
  positionMinus' :: params
  positionPlus' :: params
  momentumMinus' :: params
  momentumPlus' :: params
  proposedParams :: params
  depth' :: nat
  stop' :: bool
  nValid' :: nat
  alpha' :: real
  nAlpha' :: nat

definition initialDoubling :: "params \<Rightarrow> params \<Rightarrow> doubling" where
  "initialDoubling currentParams momentum =
     \<lparr> positionMinus' = currentParams,
       positionPlus' = currentParams,
       momentumMinus' = momentum,
       momentumPlus' = momentum,
       proposedParams = currentParams,
       depth' = 0,
       stop' = False,
       nValid' = 1,
       alpha' = 0,
       nAlpha' = 0 \<rparr>"

text \<open>The body of the \<open>while\<close> loop.\<close>

definition doublingBody ::
  "model \<Rightarrow> rng \<Rightarrow> nuts \<Rightarrow> real \<Rightarrow> real \<Rightarrow> doubling \<Rightarrow> io \<Rightarrow> (error + doubling) \<times> io" where
  "doublingBody mdl g this slice H0 L s =
     (let direction = (if random g (nRandom s) < 0.5 then - 1 else 1 :: int);
          s0 = s\<lparr>nRandom := Suc (nRandom s)\<rparr>
      in case (if direction = 1
               then buildTree mdl g (positionPlus' L) (momentumPlus' L) slice direction (depth' L)
                      (stepSize this) H0 s0
               else buildTree mdl g (positionMinus' L) (momentumMinus' L) slice direction (depth' L)
                      (stepSize this) H0 s0) of
           (Inl e, s1) \<Rightarrow> (Inl e, s1)
         | (Inr tree, s1) \<Rightarrow>
             (let L1 = (if direction = 1
                        then L\<lparr>positionPlus' := positionPlus tree, momentumPlus' := momentumPlus tree\<rparr>
                        else L\<lparr>positionMinus' := positionMinus tree, momentumMinus' := momentumMinus tree\<rparr>);
                  acceptProb = real (nValid tree) / real (nValid' L);
                  proposed = (if \<not> stop tree \<and> random g (nRandom s1) < acceptProb
                              then positionPrime tree else proposedParams L);
                  s2 = (if \<not> stop tree then s1\<lparr>nRandom := Suc (nRandom s1)\<rparr> else s1)
              in (Inr (L1\<lparr> proposedParams := proposed,
                           stop' := (stop tree \<or>
                             isUTurn (positionMinus' L1) (positionPlus' L1)
                                     (momentumMinus' L1) (momentumPlus' L1)),
                           nValid' := nValid' L + nValid tree,
                           alpha' := alpha' L + alpha tree,
                           nAlpha' := nAlpha' L + nAlpha tree,
                           depth' := Suc (depth' L) \<rparr>), s2)))"

function doublingLoop ::
  "model \<Rightarrow> rng \<Rightarrow> nuts \<Rightarrow> real \<Rightarrow> real \<Rightarrow> doubling \<Rightarrow> io \<Rightarrow> (error + doubling) \<times> io" where
  "doublingLoop mdl g this slice H0 L s =
     (if \<not> stop' L \<and> int (depth' L) < maxTreeDepth this
      then case doublingBody mdl g this slice H0 L s of
             (Inl e, s') \<Rightarrow> (Inl e, s')
           | (Inr L', s') \<Rightarrow> doublingLoop mdl g this slice H0 L' s'
      else (Inr L, s))"
  by pat_completeness auto
termination
  by (relation "measure (\<lambda>(mdl, g, this, slice, H0, L, s). nat (maxTreeDepth this - int (depth' L)))")
     (auto simp: doublingBody_def Let_def split: prod.splits sum.splits if_splits)

section \<open>The sampler driver\<close>

text \<open>
  The variables of \<open>sample\<close> that live across outer iterations: the instance (whose
  \<open>stepSize\<close> the adaptation assigns), the current position, the dual-averaging state,
  the acceptance counters and the trace. A trace entry is \<open>None\<close> where the pushed
  \<open>currentParams[name]\<close> is \<open>undefined\<close>.
\<close>

record run =
  this :: nuts
  currentParams :: params
  logStepSize :: real
  logStepSizeBar :: real
  hBar :: real
  acceptedCount :: nat
  acceptedTotal :: nat
  trace :: "(string \<times> real option list) list"
  world :: io

text \<open>\<open>for (const name of variableNames) momentum[name] = tf.randomNormal([]).arraySync()\<close>\<close>

fun drawMomentum :: "rng \<Rightarrow> string list \<Rightarrow> params \<Rightarrow> nat \<Rightarrow> params \<times> nat" where
  "drawMomentum g [] momentum k = (momentum, k)"
| "drawMomentum g (name # names) momentum k =
     drawMomentum g names (AList.update name (randomNormal g k) momentum) (Suc k)"

text \<open>The dual-averaging block at the end of outer iteration \<open>i\<close>.\<close>

definition adaptStepSize :: "nat \<Rightarrow> nat \<Rightarrow> real \<Rightarrow> run \<Rightarrow> run" where
  "adaptStepSize nWarmup i iterAcceptRate S =
     (if i < nWarmup then
        (let eta = 1 / (real i + 1 + t0 (this S));
             hBar1 = (1 - eta) * hBar S + eta * (targetAcceptance (this S) - iterAcceptRate);
             logStepSize1 = mu (this S) - sqrt (real i + 1) / gamma (this S) * hBar1;
             logEta = (real i + 1) powr (- kappa (this S));
             logStepSizeBar1 = logEta * logStepSize1 + (1 - logEta) * logStepSizeBar S
         in S\<lparr> hBar := hBar1,
               logStepSize := logStepSize1,
               logStepSizeBar := logStepSizeBar1,
               this := (this S)\<lparr>stepSize := exp logStepSize1\<rparr> \<rparr>)
      else if i = nWarmup then
        S\<lparr> this := (this S)\<lparr>stepSize := exp (logStepSizeBar S)\<rparr> \<rparr>
      else S)"

text \<open>\<open>for (const name of variableNames) trace[name].push(currentParams[name])\<close>\<close>

definition pushSample ::
  "string list \<Rightarrow> params \<Rightarrow> (string \<times> real option list) list \<Rightarrow> (string \<times> real option list) list" where
  "pushSample variableNames current tr =
     foldl (\<lambda>t name. case map_of t name of
                        Some vs \<Rightarrow> AList.update name (vs @ [map_of current name]) t
                      | None \<Rightarrow> t)
           tr variableNames"

text \<open>
  The first part of the body of the outer \<open>for\<close> loop: draw the momentum, compute
  \<open>H0\<close>, draw the slice variable and run the doubling loop with the step size the
  instance holds at that moment.
\<close>

definition trajectory :: "model \<Rightarrow> rng \<Rightarrow> run \<Rightarrow> (error + doubling) \<times> io" where
  "trajectory mdl g S =
     (let variableNames = freeVariableNames mdl;
          drawn = drawMomentum g variableNames [] (nNormal (world S));
          momentum = fst drawn;
          H0 = hamiltonian mdl (currentParams S) momentum;
          slice = random g (nRandom (world S)) * exp (- H0);
          s0 = (world S)\<lparr>nNormal := snd drawn, nRandom := Suc (nRandom (world S))\<rparr>
      in doublingLoop mdl g (this S) slice H0 (initialDoubling (currentParams S) momentum) s0)"

text \<open>
  The whole body, for loop index \<open>i\<close>. An exception leaves \<open>sample\<close>, so nothing of
  the state is returned with it. \<open>x % 0\<close> is NaN, which is not \<open>0\<close>.
\<close>

definition sampleIteration :: "model \<Rightarrow> rng \<Rightarrow> nat \<Rightarrow> nat \<Rightarrow> nat \<Rightarrow> run \<Rightarrow> error + run" where
  "sampleIteration mdl g nWarmup thin i S =
     (case trajectory mdl g S of
        (Inl e, s1) \<Rightarrow> Inl e
      | (Inr L, s1) \<Rightarrow>
          (let iterAcceptRate = alpha' L / real (max (nAlpha' L) 1);
               S1 = S\<lparr> currentParams := proposedParams L,
                       acceptedTotal := Suc (acceptedTotal S),
                       acceptedCount :=
                         (if iterAcceptRate > 0.5 then Suc (acceptedCount S) else acceptedCount S),
                       world := s1 \<rparr>;
               S2 = adaptStepSize nWarmup i iterAcceptRate S1
           in Inr (if i \<ge> nWarmup \<and> thin \<noteq> 0 \<and> (i - nWarmup) mod thin = 0
                   then S2\<lparr>trace := pushSample (freeVariableNames mdl) (currentParams S2) (trace S2)\<rparr>
                   else S2)))"

text \<open>The state after the first \<open>k\<close> outer iterations, \<open>i = 0, ..., k - 1\<close>.\<close>

fun iterations :: "model \<Rightarrow> rng \<Rightarrow> nat \<Rightarrow> nat \<Rightarrow> run \<Rightarrow> nat \<Rightarrow> error + run" where
  "iterations mdl g nWarmup thin S 0 = Inr S"
| "iterations mdl g nWarmup thin S (Suc k) =
     (case iterations mdl g nWarmup thin S k of
        Inl e \<Rightarrow> Inl e
      | Inr S' \<Rightarrow> sampleIteration mdl g nWarmup thin k S')"

text \<open>The state \<open>sample\<close> sets up before its loop.\<close>

definition initialRun :: "model \<Rightarrow> nuts \<Rightarrow> params \<Rightarrow> io \<Rightarrow> run" where
  "initialRun mdl sampler initialValues s =
     \<lparr> this = sampler,
       currentParams = initialValues,
       logStepSize = ln (stepSize sampler),
       logStepSizeBar = 0,
       hBar = 0,
       acceptedCount = 0,
       acceptedTotal = 0,
       trace = foldl (\<lambda>t name. AList.update name [] t) [] (freeVariableNames mdl),
       world = s \<rparr>"

record sampleResult =
  resultTrace :: "(string \<times> real option list) list"
  acceptanceRate :: "real option"
  resultNSamples :: nat
  resultStepSize :: real

text \<open>
  \<open>sample\<close> returns its result object and leaves the instance changed; the final state
  is returned beside the result. \<open>acceptanceRate\<close> is \<open>None\<close> for the NaN of \<open>0 / 0\<close>.
\<close>

definition sample ::
  "model \<Rightarrow> rng \<Rightarrow> nuts \<Rightarrow> params \<Rightarrow> nat \<Rightarrow> nat \<Rightarrow> nat \<Rightarrow> io \<Rightarrow> error + (sampleResult \<times> run)" where
  "sample mdl g sampler initialValues nSamples nWarmup thin s =
     (let totalIterations = nWarmup + nSamples * thin
      in case iterations mdl g nWarmup thin (initialRun mdl sampler initialValues s) totalIterations of
           Inl e \<Rightarrow> Inl e
         | Inr S \<Rightarrow>
             Inr (\<lparr> resultTrace = trace S,
                    acceptanceRate =
                      (if acceptedTotal S = 0 then None
                       else Some (real (acceptedCount S) / real (acceptedTotal S))),
                    resultNSamples = nSamples,
                    resultStepSize = stepSize (this S) \<rparr>, S))"

section \<open>Concrete inputs\<close>

text \<open>A random source that returns the same two numbers at every call, and a fresh world.\<close>

definition constRng :: "real \<Rightarrow> real \<Rightarrow> rng" where
  "constRng r z = \<lparr> random = (\<lambda>k. r), randomNormal = (\<lambda>k. z) \<rparr>"

definition io0 :: io where
  "io0 = \<lparr> nRandom = 0, nNormal = 0, leapfrogCalls = [] \<rparr>"

text \<open>A target with constant density: log-density \<open>0\<close> and gradient \<open>0\<close> everywhere.\<close>

definition flat :: model where
  "flat = \<lparr> logProb = (\<lambda>q. 0),
             gradients = (\<lambda>q. map (\<lambda>(name, v). (name, 0)) q),
             freeVariableNames = [''x''] \<rparr>"

text \<open>
  The instances \<open>new NUTS(0.1, 1)\<close> and \<open>new NUTS(0.1, 2)\<close>: \<open>mu = log (10 * 0.1) = 0\<close>.
\<close>

definition sampler1 :: nuts where
  "sampler1 = \<lparr> stepSize = 1 / 10, maxTreeDepth = 1, targetAcceptance = 4 / 5,
                mu = 0, gamma = 1 / 20, t0 = 10, kappa = 3 / 4 \<rparr>"

definition sampler2 :: nuts where
  "sampler2 = \<lparr> stepSize = 1 / 10, maxTreeDepth = 2, targetAcceptance = 4 / 5,
                mu = 0, gamma = 1 / 20, t0 = 10, kappa = 3 / 4 \<rparr>"

section \<open>Lookups in parameter maps\<close>

lemma lookup_key:
  "n \<in> set (objectKeys obj) \<Longrightarrow> \<exists>v. map_of obj n = Some v"
  unfolding objectKeys_def by (cases "map_of obj n") (simp_all add: map_of_eq_None_iff)

lemma addMul_total:
  "\<forall>n\<in>set names. n \<in> set (objectKeys a) \<and> n \<in> set (objectKeys b) \<Longrightarrow>
   addMul names a c b = Inr (map (\<lambda>n. (n, the (map_of a n) + c * the (map_of b n))) names)"
proof (induction names)
  case Nil
  then show ?case by simp
next
  case (Cons n names)
  from Cons.prems obtain x y where "map_of a n = Some x" "map_of b n = Some y"
    by (meson lookup_key list.set_intros(1))
  with Cons show ?case by simp
qed

lemma lookup_tabulate:
  "n \<in> set names \<Longrightarrow> map_of (map (\<lambda>n. (n, f n)) names) n = Some (f n)"
  by (induction names) auto

lemma objectKeys_tabulate: "objectKeys (map (\<lambda>n. (n, f n)) names) = names"
  by (simp add: objectKeys_def comp_def)

lemma tabulate_self:
  "distinct (objectKeys obj) \<Longrightarrow> map (\<lambda>n. (n, the (map_of obj n))) (objectKeys obj) = obj"
  unfolding objectKeys_def
proof (induction obj)
  case Nil
  then show ?case by simp
next
  case (Cons kv obj)
  obtain k v where kv: "kv = (k, v)" by (cases kv)
  from Cons.prems kv have k: "k \<notin> fst ` set obj" and d: "distinct (map fst obj)" by auto
  have "map (\<lambda>n. (n, the (map_of (kv # obj) n))) (map fst obj) = map (\<lambda>n. (n, the (map_of obj n))) (map fst obj)"
    using k kv by (intro map_cong) auto
  with Cons.IH [OF d] kv show ?case by simp
qed

lemma map_of_tabulate_self:
  "set names = set (objectKeys obj) \<Longrightarrow> map_of (map (\<lambda>n. (n, the (map_of obj n))) names) = map_of obj"
proof
  fix k
  assume h: "set names = set (objectKeys obj)"
  show "map_of (map (\<lambda>n. (n, the (map_of obj n))) names) k = map_of obj k"
  proof (cases "k \<in> set names")
    case True
    then obtain v where "map_of obj k = Some v" using h lookup_key by blast
    with True show ?thesis by (simp add: lookup_tabulate)
  next
    case False
    then have "map_of obj k = None" using h by (simp add: objectKeys_def map_of_eq_None_iff)
    moreover have "map_of (map (\<lambda>n. (n, the (map_of obj n))) names) k = None"
      using False by (simp add: map_of_eq_None_iff image_image)
    ultimately show ?thesis by simp
  qed
qed

lemma objectKeys_negate: "objectKeys (negate p) = objectKeys p"
  by (simp add: objectKeys_def negate_def comp_def case_prod_unfold)

lemma map_of_negate: "map_of (negate p) n = map_option uminus (map_of p n)"
  by (induction p) (auto simp: negate_def)

section \<open>The U-turn test is the sign of two dot products\<close>

lemma dotDelta_sum:
  "\<forall>n\<in>set names. n \<in> set (objectKeys pp) \<and> n \<in> set (objectKeys pm) \<and> n \<in> set (objectKeys mom) \<Longrightarrow>
   dotDelta names pm pp mom (Some a) =
     Some (a + (\<Sum>n\<leftarrow>names. (the (map_of pp n) - the (map_of pm n)) * the (map_of mom n)))"
proof (induction names arbitrary: a)
  case Nil
  then show ?case by simp
next
  case (Cons n names)
  from Cons.prems obtain tp tm m where
    "map_of pp n = Some tp" "map_of pm n = Some tm" "map_of mom n = Some m"
    by (meson lookup_key list.set_intros(1))
  with Cons show ?case by (simp add: add.assoc)
qed

text \<open>
  C9. When every variable of \<open>positionMinus\<close> is present in the other three maps,
  \<open>isUTurn\<close> is true exactly when the dot product of \<open>positionPlus - positionMinus\<close>
  with \<open>momentumPlus\<close>, or with \<open>momentumMinus\<close>, summed over the variables, is
  negative. On the one-variable inputs of the test suite it is false for
  \<open>(0, 1, 1, 1)\<close> and true for \<open>(0, 1, 1, -1)\<close>.
\<close>

theorem isUTurn_dot_products:
  "(set (objectKeys qMinus) \<subseteq> set (objectKeys qPlus) \<and>
    set (objectKeys qMinus) \<subseteq> set (objectKeys pMinus) \<and>
    set (objectKeys qMinus) \<subseteq> set (objectKeys pPlus) \<longrightarrow>
    isUTurn qMinus qPlus pMinus pPlus =
      ((\<Sum>n\<leftarrow>objectKeys qMinus.
          (the (map_of qPlus n) - the (map_of qMinus n)) * the (map_of pPlus n)) < 0 \<or>
       (\<Sum>n\<leftarrow>objectKeys qMinus.
          (the (map_of qPlus n) - the (map_of qMinus n)) * the (map_of pMinus n)) < 0)) \<and>
   isUTurn [(''x'', 0)] [(''x'', 1)] [(''x'', 1)] [(''x'', 1)] = False \<and>
   isUTurn [(''x'', 0)] [(''x'', 1)] [(''x'', 1)] [(''x'', -1)] = True"
proof (intro conjI impI)
  assume h: "set (objectKeys qMinus) \<subseteq> set (objectKeys qPlus) \<and>
    set (objectKeys qMinus) \<subseteq> set (objectKeys pMinus) \<and>
    set (objectKeys qMinus) \<subseteq> set (objectKeys pPlus)"
  have p: "dotDelta (objectKeys qMinus) qMinus qPlus pPlus (Some 0) =
     Some (0 + (\<Sum>n\<leftarrow>objectKeys qMinus.
          (the (map_of qPlus n) - the (map_of qMinus n)) * the (map_of pPlus n)))"
    by (rule dotDelta_sum) (use h in auto)
  have m: "dotDelta (objectKeys qMinus) qMinus qPlus pMinus (Some 0) =
     Some (0 + (\<Sum>n\<leftarrow>objectKeys qMinus.
          (the (map_of qPlus n) - the (map_of qMinus n)) * the (map_of pMinus n)))"
    by (rule dotDelta_sum) (use h in auto)
  show "isUTurn qMinus qPlus pMinus pPlus =
      ((\<Sum>n\<leftarrow>objectKeys qMinus.
          (the (map_of qPlus n) - the (map_of qMinus n)) * the (map_of pPlus n)) < 0 \<or>
       (\<Sum>n\<leftarrow>objectKeys qMinus.
          (the (map_of qPlus n) - the (map_of qMinus n)) * the (map_of pMinus n)) < 0)"
    by (simp add: isUTurn_def Let_def p m isNegative_def)
next
  show "isUTurn [(''x'', 0)] [(''x'', 1)] [(''x'', 1)] [(''x'', 1)] = False"
    by (simp add: isUTurn_def objectKeys_def isNegative_def)
next
  show "isUTurn [(''x'', 0)] [(''x'', 1)] [(''x'', 1)] [(''x'', -1)] = True"
    by (simp add: isUTurn_def objectKeys_def isNegative_def)
qed

theorem isUTurn_dot_products_witness:
  "isUTurn [(''a'', 0), (''b'', 2)] [(''a'', 1), (''b'', 0)] [(''b'', 1), (''a'', 1)] [(''a'', 1), (''b'', 1)] = True"
  using isUTurn_dot_products [of "[(''a'', 0), (''b'', 2)]" "[(''a'', 1), (''b'', 0)]" "[(''b'', 1), (''a'', 1)]" "[(''a'', 1), (''b'', 1)]"]
  by (simp add: objectKeys_def)

section \<open>Reversibility of the leapfrog step\<close>

text \<open>The three stages of one step, when every key is present.\<close>

lemma leapfrog_formula:
  fixes h :: real
  assumes kp: "set (objectKeys x) \<subseteq> set (objectKeys p)"
    and kg: "\<forall>q. set (objectKeys q) \<subseteq> set (objectKeys (gradients mdl q))"
  defines "K \<equiv> objectKeys x"
  defines "pHalf \<equiv> map (\<lambda>n. (n, the (map_of p n) + h / 2 * the (map_of (gradients mdl x) n))) K"
  defines "qNew \<equiv> map (\<lambda>n. (n, the (map_of x n) + h * the (map_of pHalf n))) K"
  defines "pNew \<equiv> map (\<lambda>n. (n, the (map_of pHalf n) + h / 2 * the (map_of (gradients mdl qNew) n))) K"
  shows "leapfrog mdl x p h = Inr (qNew, pNew)"
proof -
  have kH: "objectKeys pHalf = K" by (simp add: pHalf_def objectKeys_tabulate)
  have kQ: "objectKeys qNew = K" by (simp add: qNew_def objectKeys_tabulate)
  have 1: "addMul K p (h / 2) (gradients mdl x) = Inr pHalf"
    unfolding pHalf_def by (rule addMul_total) (use kp kg K_def in auto)
  have 2: "addMul K x h pHalf = Inr qNew"
    unfolding qNew_def by (rule addMul_total) (use kH K_def in auto)
  have 3: "addMul K pHalf (h / 2) (gradients mdl qNew) = Inr pNew"
    unfolding pNew_def by (rule addMul_total) (use kH kQ kg [rule_format, of qNew] in auto)
  show ?thesis
    using 1 2 3 by (simp add: leapfrog_def Let_def K_def [symmetric])
qed

text \<open>
  C3, as the source has it. The claim negates both the momentum and the step, which
  undoes nothing: from \<open>x = 0\<close>, \<open>p = 1\<close> with step \<open>1\<close> on the standard normal
  target the step arrives at \<open>(1, 1/2)\<close>, and the step \<open>-1\<close> from \<open>(1, -1/2)\<close>
  stays at position \<open>1\<close>.
\<close>

theorem leapfrog_negated_step_counterexample:
  "leapfrog stdNormal [(''x'', 0)] [(''x'', 1)] 1 = Inr ([(''x'', 1)], [(''x'', 1 / 2)]) \<and>
   leapfrog stdNormal [(''x'', 1)] (negate [(''x'', 1 / 2)]) (- 1) = Inr ([(''x'', 1)], [(''x'', 1 / 2)]) \<and>
   leapfrog stdNormal [(''x'', 1)] (negate [(''x'', 1 / 2)]) (- 1) \<noteq> Inr ([(''x'', 0)], negate [(''x'', 1)]) \<and>
   leapfrog stdNormal [(''x'', 1)] (negate [(''x'', 1 / 2)]) (- 1) \<noteq> Inr ([(''x'', 0)], [(''x'', 1)])"
  by (simp add: leapfrog_def stdNormal_def objectKeys_def negate_def)

text \<open>
  C3, amended. For a position with distinct keys, a momentum over the same keys and a
  gradient that covers the keys of its argument, the step succeeds, and from its result
  either one of the two reversals returns to the start: the step \<open>-h\<close> with the
  momentum kept gives back \<open>(x, p)\<close>, and the step \<open>h\<close> with the momentum negated gives
  back \<open>(x, negate p)\<close>. The momenta are compared as maps.
\<close>

theorem leapfrog_reversible:
  fixes h :: real
  assumes dx: "distinct (objectKeys x)"
    and kp: "set (objectKeys p) = set (objectKeys x)"
    and kg: "\<forall>q. set (objectKeys q) \<subseteq> set (objectKeys (gradients mdl q))"
  shows "\<exists>x' p'. leapfrog mdl x p h = Inr (x', p') \<and>
           (\<exists>p''. leapfrog mdl x' p' (- h) = Inr (x, p'') \<and> map_of p'' = map_of p) \<and>
           (\<exists>p''. leapfrog mdl x' (negate p') h = Inr (x, p'') \<and> map_of p'' = map_of (negate p))"
proof -
  define K where "K = objectKeys x"
  define G1 where "G1 = gradients mdl x"
  define pHalf where "pHalf = map (\<lambda>n. (n, the (map_of p n) + h / 2 * the (map_of G1 n))) K"
  define qNew where "qNew = map (\<lambda>n. (n, the (map_of x n) + h * the (map_of pHalf n))) K"
  define G2 where "G2 = gradients mdl qNew"
  define pNew where "pNew = map (\<lambda>n. (n, the (map_of pHalf n) + h / 2 * the (map_of G2 n))) K"
  have fwd: "leapfrog mdl x p h = Inr (qNew, pNew)"
    unfolding qNew_def pNew_def pHalf_def K_def G1_def G2_def
    by (rule leapfrog_formula) (use kp kg in auto)
  have kQ: "objectKeys qNew = K" by (simp add: qNew_def objectKeys_tabulate)
  have kP: "objectKeys pNew = K" by (simp add: pNew_def objectKeys_tabulate)
  have lH: "\<And>n. n \<in> set K \<Longrightarrow> map_of pHalf n = Some (the (map_of p n) + h / 2 * the (map_of G1 n))"
    by (simp add: pHalf_def lookup_tabulate)
  have lQ: "\<And>n. n \<in> set K \<Longrightarrow> map_of qNew n = Some (the (map_of x n) + h * the (map_of pHalf n))"
    by (simp add: qNew_def lookup_tabulate)
  have lP: "\<And>n. n \<in> set K \<Longrightarrow> map_of pNew n = Some (the (map_of pHalf n) + h / 2 * the (map_of G2 n))"
    by (simp add: pNew_def lookup_tabulate)
  have xs: "map (\<lambda>n. (n, the (map_of x n))) K = x"
    unfolding K_def by (rule tabulate_self) (rule dx)
  have hs: "map (\<lambda>n. (n, the (map_of pHalf n))) K = pHalf"
    unfolding pHalf_def by (rule map_cong) (simp_all add: lookup_tabulate)
  \<comment> \<open>backwards with the step negated\<close>
  have bH: "map (\<lambda>n. (n, the (map_of pNew n) + (- h) / 2 * the (map_of G2 n))) K = pHalf"
  proof -
    have "map (\<lambda>n. (n, the (map_of pNew n) + (- h) / 2 * the (map_of G2 n))) K
        = map (\<lambda>n. (n, the (map_of pHalf n))) K"
      by (rule map_cong) (simp_all add: lP)
    with hs show ?thesis by simp
  qed
  have bQ: "map (\<lambda>n. (n, the (map_of qNew n) + (- h) * the (map_of pHalf n))) K = x"
  proof -
    have "map (\<lambda>n. (n, the (map_of qNew n) + (- h) * the (map_of pHalf n))) K
        = map (\<lambda>n. (n, the (map_of x n))) K"
      by (rule map_cong) (simp_all add: lQ)
    with xs show ?thesis by simp
  qed
  have bP: "map (\<lambda>n. (n, the (map_of pHalf n) + (- h) / 2 * the (map_of G1 n))) K
      = map (\<lambda>n. (n, the (map_of p n))) K"
    by (rule map_cong) (simp_all add: lH)
  have mP: "map_of (map (\<lambda>n. (n, the (map_of p n))) K) = map_of p"
    by (rule map_of_tabulate_self) (simp add: K_def kp)
  have bwd: "leapfrog mdl qNew pNew (- h) = Inr (x, map (\<lambda>n. (n, the (map_of p n))) K)"
    using leapfrog_formula [of qNew pNew mdl "- h"] kg kQ kP bH bQ bP
    by (simp add: G1_def G2_def)
  \<comment> \<open>forwards again with the momentum negated\<close>
  have kN: "objectKeys (negate pNew) = K" by (simp add: objectKeys_negate kP)
  have lN: "\<And>n. n \<in> set K \<Longrightarrow> map_of (negate pNew) n = Some (- (the (map_of pHalf n) + h / 2 * the (map_of G2 n)))"
    by (simp add: map_of_negate lP)
  define mHalf where "mHalf = map (\<lambda>n. (n, - the (map_of pHalf n))) K"
  have lM: "\<And>n. n \<in> set K \<Longrightarrow> map_of mHalf n = Some (- the (map_of pHalf n))"
    by (simp add: mHalf_def lookup_tabulate)
  have nH: "map (\<lambda>n. (n, the (map_of (negate pNew) n) + h / 2 * the (map_of G2 n))) K = mHalf"
    unfolding mHalf_def by (rule map_cong) (simp_all add: lN)
  have nQ: "map (\<lambda>n. (n, the (map_of qNew n) + h * the (map_of mHalf n))) K = x"
  proof -
    have "map (\<lambda>n. (n, the (map_of qNew n) + h * the (map_of mHalf n))) K
        = map (\<lambda>n. (n, the (map_of x n))) K"
      by (rule map_cong) (simp_all add: lQ lM)
    with xs show ?thesis by simp
  qed
  have nP: "map (\<lambda>n. (n, the (map_of mHalf n) + h / 2 * the (map_of G1 n))) K
      = map (\<lambda>n. (n, the (map_of (negate p) n))) K"
  proof (rule map_cong)
    fix n assume n: "n \<in> set K"
    then obtain v where "map_of p n = Some v" using kp K_def lookup_key by blast
    with n show "(n, the (map_of mHalf n) + h / 2 * the (map_of G1 n)) = (n, the (map_of (negate p) n))"
      by (simp add: lM lH map_of_negate)
  qed simp
  have mN: "map_of (map (\<lambda>n. (n, the (map_of (negate p) n))) K) = map_of (negate p)"
    by (rule map_of_tabulate_self) (simp add: K_def kp objectKeys_negate)
  have neg: "leapfrog mdl qNew (negate pNew) h = Inr (x, map (\<lambda>n. (n, the (map_of (negate p) n))) K)"
    using leapfrog_formula [of qNew "negate pNew" mdl h] kg kQ kN nH nQ nP
    by (simp add: G1_def G2_def)
  show ?thesis
    using fwd bwd neg mP mN by blast
qed

theorem leapfrog_reversible_witness:
  "leapfrog stdNormal [(''x'', 0)] [(''x'', 1)] 1 = Inr ([(''x'', 1)], [(''x'', 1 / 2)]) \<and>
   leapfrog stdNormal [(''x'', 1)] [(''x'', 1 / 2)] (- 1) = Inr ([(''x'', 0)], [(''x'', 1)])"
  using leapfrog_reversible [of "[(''x'', 0)]" "[(''x'', 1)]" stdNormal 1]
  by (simp add: leapfrog_def stdNormal_def objectKeys_def negate_def)

section \<open>The leaves of the tree\<close>

lemma buildTree_leaf_cases:
  assumes "buildTree mdl g position momentum slice direction 0 eps H0 s = (Inr t, s')"
  obtains q p where "leapfrog mdl position momentum (of_int direction * eps) = Inr (q, p)"
    and "t = \<lparr> positionMinus = q, positionPlus = q, momentumMinus = p, momentumPlus = p,
              positionPrime = q,
              nValid = (if slice \<le> exp (H0 - hamiltonian mdl q p) then 1 else 0),
              stop = (\<not> slice \<le> exp (H0 - hamiltonian mdl q p) \<or> H0 - hamiltonian mdl q p > deltaMax),
              alpha = min 1 (exp (H0 - hamiltonian mdl q p)),
              nAlpha = 1 \<rparr>"
    and "s' = s\<lparr>leapfrogCalls := leapfrogCalls s @ [of_int direction * eps]\<rparr>"
  using assms by (auto simp: Let_def split: sum.splits prod.splits)

lemma leaf_at_rest:
  "leapfrog stdNormal [(''x'', 0)] [(''x'', 0)] h = Inr ([(''x'', 0)], [(''x'', 0)])"
  by (simp add: leapfrog_def stdNormal_def objectKeys_def Let_def)

lemma hamiltonian_at_rest: "hamiltonian stdNormal [(''x'', 0)] [(''x'', 0)] = 0"
  by (simp add: hamiltonian_def stdNormal_def objectKeys_def)

text \<open>
  C10. A leaf stops exactly when it is invalid or its energy error \<open>H0 - H\<close> exceeds
  \<open>deltaMax = 1000\<close>; so every invalid leaf stops, divergent or not.
\<close>

theorem buildTree_leaf_stop:
  assumes "buildTree mdl g position momentum slice direction 0 eps H0 s = (Inr t, s')"
  shows "\<exists>q p. leapfrog mdl position momentum (of_int direction * eps) = Inr (q, p) \<and>
           stop t = (\<not> slice \<le> exp (H0 - hamiltonian mdl q p) \<or> H0 - hamiltonian mdl q p > 1000) \<and>
           (slice > exp (H0 - hamiltonian mdl q p) \<longrightarrow> stop t)"
  using assms by (elim buildTree_leaf_cases) (auto simp: deltaMax_def)

theorem buildTree_leaf_stop_witness:
  "\<exists>t s'. buildTree stdNormal (constRng 0 0) [(''x'', 0)] [(''x'', 0)] 2 1 0 (1 / 100) 0 io0 = (Inr t, s') \<and>
      stop t \<and> \<not> (0 - hamiltonian stdNormal [(''x'', 0)] [(''x'', 0)] > 1000)"
proof -
  obtain t s' where e: "buildTree stdNormal (constRng 0 0) [(''x'', 0)] [(''x'', 0)] 2 1 0 (1 / 100) 0 io0 = (Inr t, s')"
    by (simp add: leaf_at_rest hamiltonian_at_rest)
  from buildTree_leaf_stop [OF e] have "stop t"
    by (simp add: leaf_at_rest hamiltonian_at_rest)
  with e show ?thesis by (simp add: hamiltonian_at_rest)
qed

lemma exp_small: "exp (- (1 / 2)) / 2 > exp (- (32 :: real))"
proof -
  have "1 + (63 / 2 :: real) \<le> exp (63 / 2)" by (rule exp_ge_add_one_self)
  then have "(2 :: real) < exp (63 / 2)" by simp
  then have "exp (- (63 / 2)) < (1 / 2 :: real)"
    by (simp add: exp_minus field_simps)
  then have "exp (- (1 / 2)) * exp (- (63 / 2)) < exp (- (1 / 2)) * (1 / 2 :: real)"
    by (simp only: mult_less_cancel_left_pos exp_gt_zero)
  moreover have "exp (- (1 / 2)) * exp (- (63 / 2)) = exp (- (32 :: real))"
    by (simp add: exp_add [symmetric])
  ultimately show ?thesis by simp
qed

text \<open>
  C6, as the source has it. From \<open>x = 0\<close>, \<open>p = 1\<close> (so \<open>H0 = 1/2\<close>) with the slice
  variable \<open>0.5 * exp (- H0)\<close> and step size \<open>4\<close>, the leaf is at \<open>(4, -7)\<close> with
  \<open>H = 65/2\<close>: the energy error \<open>H0 - H = -32\<close> is below \<open>deltaMax\<close>, the leaf is not
  divergent, and its \<open>nValid\<close> is \<open>0\<close>.
\<close>

theorem nondivergent_leaf_counterexample:
  "buildTree stdNormal (constRng (1 / 2) 1) [(''x'', 0)] [(''x'', 1)] (exp (- (1 / 2)) / 2) 1 0 4 (1 / 2) io0 =
     (Inr \<lparr> positionMinus = [(''x'', 4)], positionPlus = [(''x'', 4)],
            momentumMinus = [(''x'', - 7)], momentumPlus = [(''x'', - 7)],
            positionPrime = [(''x'', 4)],
            nValid = 0, stop = True, alpha = exp (- 32), nAlpha = 1 \<rparr>,
      io0\<lparr>leapfrogCalls := [4]\<rparr>) \<and>
   1 / 2 - hamiltonian stdNormal [(''x'', 4)] [(''x'', - 7)] \<le> deltaMax \<and>
   hamiltonian stdNormal [(''x'', 0)] [(''x'', 1)] = 1 / 2"
proof -
  have l: "leapfrog stdNormal [(''x'', 0)] [(''x'', 1)] 4 = Inr ([(''x'', 4)], [(''x'', - 7)])"
    by (simp add: leapfrog_def stdNormal_def objectKeys_def Let_def)
  have h: "hamiltonian stdNormal [(''x'', 4)] [(''x'', - 7)] = 65 / 2"
    by (simp add: hamiltonian_def stdNormal_def objectKeys_def)
  have h0: "hamiltonian stdNormal [(''x'', 0)] [(''x'', 1)] = 1 / 2"
    by (simp add: hamiltonian_def stdNormal_def objectKeys_def)
  have v: "\<not> exp (- (1 / 2)) / 2 \<le> exp (- (32 :: real))"
    using exp_small by simp
  show ?thesis
    using v by (simp add: l h h0 deltaMax_def io0_def)
qed

text \<open>
  C6, amended. \<open>nValid\<close> of a leaf is \<open>1\<close> when the leaf is valid, that is when
  \<open>slice \<le> exp (H0 - H)\<close>, and \<open>0\<close> otherwise; so a valid leaf, and every leaf that
  does not stop, has \<open>nValid \<ge> 1\<close>.
\<close>

theorem buildTree_leaf_nValid:
  assumes "buildTree mdl g position momentum slice direction 0 eps H0 s = (Inr t, s')"
  shows "\<exists>q p. leapfrog mdl position momentum (of_int direction * eps) = Inr (q, p) \<and>
           nValid t = (if slice \<le> exp (H0 - hamiltonian mdl q p) then 1 else 0) \<and>
           (slice \<le> exp (H0 - hamiltonian mdl q p) \<longrightarrow> nValid t \<ge> 1) \<and>
           (\<not> stop t \<longrightarrow> nValid t \<ge> 1)"
  using assms by (elim buildTree_leaf_cases) auto

theorem buildTree_leaf_nValid_witness:
  "\<exists>t s'. buildTree stdNormal (constRng 0 0) [(''x'', 0)] [(''x'', 0)] (1 / 2) 1 0 (1 / 100) 0 io0 = (Inr t, s') \<and>
      nValid t = 1 \<and> \<not> stop t"
proof -
  obtain t s' where e: "buildTree stdNormal (constRng 0 0) [(''x'', 0)] [(''x'', 0)] (1 / 2) 1 0 (1 / 100) 0 io0 = (Inr t, s')"
    by (simp add: leaf_at_rest hamiltonian_at_rest)
  from buildTree_leaf_nValid [OF e] have "nValid t = 1"
    by (simp add: leaf_at_rest hamiltonian_at_rest)
  moreover from e have "\<not> stop t" 
    by (auto simp: leaf_at_rest hamiltonian_at_rest deltaMax_def)
  ultimately show ?thesis using e by simp
qed

section \<open>Short circuit on a stopped first half\<close>

text \<open>
  C2. When the first half-subtree, built at \<open>depth\<close>, returns with \<open>stop\<close> set, the
  call at \<open>depth + 1\<close> returns that subtree and the world as the first half left it:
  no second half is built, no further \<open>leapfrog\<close> call is recorded and no random number
  is drawn.
\<close>

theorem buildTree_short_circuit:
  assumes "buildTree mdl g position momentum slice direction depth eps H0 s = (Inr tree1, s1)"
    and "stop tree1"
  shows "buildTree mdl g position momentum slice direction (Suc depth) eps H0 s = (Inr tree1, s1)"
  using assms by simp

theorem buildTree_short_circuit_witness:
  "buildTree stdNormal (constRng 0 0) [(''x'', 0)] [(''x'', 0)] 2 1 (Suc 0) (1 / 100) 0 io0 =
     buildTree stdNormal (constRng 0 0) [(''x'', 0)] [(''x'', 0)] 2 1 0 (1 / 100) 0 io0 \<and>
   leapfrogCalls (snd (buildTree stdNormal (constRng 0 0) [(''x'', 0)] [(''x'', 0)] 2 1 (Suc 0) (1 / 100) 0 io0))
     = [1 / 100]"
proof -
  let ?t = "\<lparr> positionMinus = [(''x'', 0)], positionPlus = [(''x'', 0)],
            momentumMinus = [(''x'', 0)], momentumPlus = [(''x'', 0)],
            positionPrime = [(''x'', 0)],
            nValid = 0, stop = True, alpha = 1, nAlpha = 1 \<rparr>"
  have e: "buildTree stdNormal (constRng 0 0) [(''x'', 0)] [(''x'', 0)] 2 1 0 (1 / 100) 0 io0
     = (Inr ?t, io0\<lparr>leapfrogCalls := [1 / 100]\<rparr>)"
    by (simp add: leaf_at_rest hamiltonian_at_rest io0_def)
  have st: "stop ?t" by simp
  from buildTree_short_circuit [OF e st] e show ?thesis by simp
qed

section \<open>Evaluating the concrete inputs\<close>

lemma isUTurn_at_rest: "isUTurn [(''x'', 0)] [(''x'', 0)] [(''x'', 0)] [(''x'', 0)] = False"
  by (simp add: isUTurn_def objectKeys_def isNegative_def)

lemma randomNormal_constRng: "randomNormal (constRng r z) k = z"
  by (simp add: constRng_def)

lemma random_constRng: "random (constRng r z) k = r"
  by (simp add: constRng_def)

lemma freeVariableNames_stdNormal: "freeVariableNames stdNormal = [''x'']"
  by (simp add: stdNormal_def)

lemma leapfrog_flat:
  "leapfrog flat [(''x'', a)] [(''x'', b)] h = Inr ([(''x'', a + h * b)], [(''x'', b)])"
  by (simp add: leapfrog_def flat_def objectKeys_def Let_def)

lemma hamiltonian_flat: "hamiltonian flat [(''x'', a)] [(''x'', b)] = b * b / 2"
  by (simp add: hamiltonian_def flat_def objectKeys_def)

lemma isUTurn_single:
  "isUTurn [(''x'', a)] [(''x'', b)] [(''x'', c)] [(''x'', d)] = ((b - a) * d < 0 \<or> (b - a) * c < 0)"
  by (simp add: isUTurn_def objectKeys_def isNegative_def)

lemma NUTS_constructor_sampler1: "NUTS_constructor (Some (1 / 10)) (Some 1) None = Inr sampler1"
  by (simp add: NUTS_constructor_def sampler1_def)

lemma trajectory_at_rest:
  assumes "currentParams S = [(''x'', 0)]" and "maxTreeDepth (this S) = 1"
  shows "trajectory stdNormal (constRng (7 / 10) 0) S =
     (Inr \<lparr> positionMinus' = [(''x'', 0)], positionPlus' = [(''x'', 0)],
            momentumMinus' = [(''x'', 0)], momentumPlus' = [(''x'', 0)],
            proposedParams = [(''x'', 0)], depth' = 1, stop' = False,
            nValid' = 2, alpha' = 1, nAlpha' = 1 \<rparr>,
      \<lparr> nRandom = nRandom (world S) + 3, nNormal = Suc (nNormal (world S)),
        leapfrogCalls = leapfrogCalls (world S) @ [stepSize (this S)] \<rparr>)"
  using assms
  by (simp add: trajectory_def freeVariableNames_stdNormal randomNormal_constRng
        hamiltonian_at_rest random_constRng initialDoubling_def
        doublingBody_def leaf_at_rest isUTurn_at_rest Let_def deltaMax_def)

section \<open>The leapfrog calls of a trajectory\<close>

text \<open>
  A call of \<open>buildTree\<close> at depth \<open>d\<close> adds at most \<open>2 ^ d\<close> entries to the log of
  leapfrog calls, each with the signed step size it was given, and draws no normal
  variate. This holds for every outcome, an exception included.
\<close>

lemma buildTree_calls:
  "buildTree mdl g position momentum slice direction depth eps H0 s = (r, s') \<Longrightarrow>
   \<exists>new. leapfrogCalls s' = leapfrogCalls s @ new \<and> length new \<le> 2 ^ depth \<and>
         set new \<subseteq> {of_int direction * eps} \<and> nNormal s' = nNormal s"
proof (induction depth arbitrary: position momentum s r s')
  case 0
  then show ?case
    by (auto simp: Let_def split: sum.splits prod.splits)
next
  case (Suc depth)
  obtain r1 s1 where b1: "buildTree mdl g position momentum slice direction depth eps H0 s = (r1, s1)"
    by fastforce
  from Suc.IH [OF b1] obtain new1 where
    n1: "leapfrogCalls s1 = leapfrogCalls s @ new1" "length new1 \<le> 2 ^ depth"
        "set new1 \<subseteq> {of_int direction * eps}" "nNormal s1 = nNormal s"
    by blast
  show ?case
  proof (cases "\<exists>tree1. r1 = Inr tree1 \<and> \<not> stop tree1")
    case False
    with Suc.prems b1 have "s' = s1"
      by (cases r1) (auto split: if_splits)
    with n1 show ?thesis
      by (intro exI [of _ new1]) (simp add: le_Suc_eq trans_le_add1)
  next
    case True
    then obtain tree1 where t1: "r1 = Inr tree1" "\<not> stop tree1" by blast
    define position2 where "position2 = (if direction = 1 then positionPlus tree1 else positionMinus tree1)"
    define momentum2 where "momentum2 = (if direction = 1 then momentumPlus tree1 else momentumMinus tree1)"
    obtain r2 s2 where b2: "buildTree mdl g position2 momentum2 slice direction depth eps H0 s1 = (r2, s2)"
      by fastforce
    from Suc.IH [OF b2] obtain new2 where
      n2: "leapfrogCalls s2 = leapfrogCalls s1 @ new2" "length new2 \<le> 2 ^ depth"
          "set new2 \<subseteq> {of_int direction * eps}" "nNormal s2 = nNormal s1"
      by blast
    from Suc.prems b1 t1 b2 have "leapfrogCalls s' = leapfrogCalls s2 \<and> nNormal s' = nNormal s2"
      by (cases r2) (auto simp: Let_def position2_def momentum2_def)
    with n1 n2 show ?thesis
      by (intro exI [of _ "new1 @ new2"]) auto
  qed
qed

lemma doublingBody_calls:
  assumes "doublingBody mdl g sampler slice H0 L s = (r, s')"
  shows "\<exists>new. leapfrogCalls s' = leapfrogCalls s @ new \<and> length new \<le> 2 ^ depth' L \<and>
         set new \<subseteq> {stepSize sampler, - stepSize sampler} \<and> nNormal s' = nNormal s"
proof -
  define direction :: int where "direction = (if random g (nRandom s) < 0.5 then - 1 else 1)"
  define s0 where "s0 = s\<lparr>nRandom := Suc (nRandom s)\<rparr>"
  define q where "q = (if direction = 1 then positionPlus' L else positionMinus' L)"
  define p where "p = (if direction = 1 then momentumPlus' L else momentumMinus' L)"
  obtain r1 s1 where b: "buildTree mdl g q p slice direction (depth' L) (stepSize sampler) H0 s0 = (r1, s1)"
    by fastforce
  from buildTree_calls [OF b] obtain new where
    n: "leapfrogCalls s1 = leapfrogCalls s0 @ new" "length new \<le> 2 ^ depth' L"
       "set new \<subseteq> {of_int direction * stepSize sampler}" "nNormal s1 = nNormal s0"
    by blast
  have d: "of_int direction * stepSize sampler \<in> {stepSize sampler, - stepSize sampler}"
    by (simp add: direction_def)
  from assms b have "leapfrogCalls s' = leapfrogCalls s1 \<and> nNormal s' = nNormal s1"
    unfolding doublingBody_def direction_def [symmetric] s0_def [symmetric] Let_def
    by (cases r1) (auto simp: q_def p_def split: if_splits)
  with n d show ?thesis
    by (intro exI [of _ new]) (auto simp: s0_def)
qed

lemma doublingBody_depth:
  "doublingBody mdl g sampler slice H0 L s = (Inr L', s') \<Longrightarrow> depth' L' = Suc (depth' L)"
  by (auto simp: doublingBody_def Let_def split: prod.splits sum.splits if_splits)

lemma doublingLoop_calls:
  "doublingLoop mdl g sampler slice H0 L s = (r, s') \<Longrightarrow>
   \<exists>new. leapfrogCalls s' = leapfrogCalls s @ new \<and>
         length new + 2 ^ depth' L \<le> max (2 ^ depth' L) (2 ^ nat (maxTreeDepth sampler)) \<and>
         set new \<subseteq> {stepSize sampler, - stepSize sampler} \<and> nNormal s' = nNormal s"
proof (induction mdl g sampler slice H0 L s arbitrary: r s' rule: doublingLoop.induct)
  case (1 mdl g sampler slice H0 L s)
  show ?case
  proof (cases "\<not> stop' L \<and> int (depth' L) < maxTreeDepth sampler")
    case False
    with "1.prems" have "s' = s" by (simp split: if_splits)
    then show ?thesis by simp
  next
    case True
    then have lt: "depth' L < nat (maxTreeDepth sampler)" by linarith
    obtain r1 s1 where b: "doublingBody mdl g sampler slice H0 L s = (r1, s1)"
      by fastforce
    from doublingBody_calls [OF b] obtain new1 where
      n1: "leapfrogCalls s1 = leapfrogCalls s @ new1" "length new1 \<le> 2 ^ depth' L"
          "set new1 \<subseteq> {stepSize sampler, - stepSize sampler}" "nNormal s1 = nNormal s"
      by blast
    show ?thesis
    proof (cases r1)
      case (Inl e)
      with "1.prems" True b have "s' = s1" by simp
      moreover have "(2::nat) ^ depth' L + 2 ^ depth' L \<le> 2 ^ nat (maxTreeDepth sampler)"
        using lt power_increasing [of "Suc (depth' L)" "nat (maxTreeDepth sampler)" "2::nat"] by simp
      ultimately show ?thesis using n1
        by (intro exI [of _ new1]) auto
    next
      case (Inr L')
      with "1.prems" True b have l: "doublingLoop mdl g sampler slice H0 L' s1 = (r, s')" by simp
      have dL: "depth' L' = Suc (depth' L)" using b Inr by (auto dest: doublingBody_depth)
      from "1.IH" [OF True b [symmetric] Inr l] obtain new2 where
        n2: "leapfrogCalls s' = leapfrogCalls s1 @ new2"
            "length new2 + 2 ^ depth' L' \<le> max (2 ^ depth' L') (2 ^ nat (maxTreeDepth sampler))"
            "set new2 \<subseteq> {stepSize sampler, - stepSize sampler}" "nNormal s' = nNormal s1"
        by blast
      have "(2::nat) ^ depth' L' \<le> 2 ^ nat (maxTreeDepth sampler)"
        using lt dL by (intro power_increasing) auto
      with n2(2) have "length new2 + 2 ^ depth' L' \<le> 2 ^ nat (maxTreeDepth sampler)" by simp
      with n1 n2 dL show ?thesis
        by (intro exI [of _ "new1 @ new2"]) auto
    qed
  qed
qed



lemma trajectory_steps:
  assumes "trajectory mdl g S = (r, s')"
  shows "\<exists>new. leapfrogCalls s' = leapfrogCalls (world S) @ new \<and>
           set new \<subseteq> {stepSize (this S), - stepSize (this S)}"
proof -
  from assms obtain slice H0 q p s0 where
    l: "doublingLoop mdl g (this S) slice H0 (initialDoubling q p) s0 = (r, s')"
    and s0: "leapfrogCalls s0 = leapfrogCalls (world S)"
    by (auto simp: trajectory_def Let_def)
  from doublingLoop_calls [OF l] s0 show ?thesis by auto
qed

text \<open>
  C7. With \<open>maxTreeDepth = d\<close>, the doubling loop of one outer iteration calls
  \<open>leapfrog\<close> at most \<open>2 ^ d - 1\<close> times, hence at most \<open>2 ^ d\<close> times, whatever the
  outcome of the iteration.
\<close>

theorem doubling_leapfrog_bound:
  assumes "maxTreeDepth (this S) = int d" and "trajectory mdl g S = (r, s')"
  shows "\<exists>new. leapfrogCalls s' = leapfrogCalls (world S) @ new \<and>
           length new \<le> 2 ^ d - 1 \<and> length new \<le> 2 ^ d"
proof -
  from assms(2) obtain slice H0 q p s0 where
    l: "doublingLoop mdl g (this S) slice H0 (initialDoubling q p) s0 = (r, s')"
    and s0: "leapfrogCalls s0 = leapfrogCalls (world S)"
    by (auto simp: trajectory_def Let_def)
  from doublingLoop_calls [OF l] obtain new where
    n: "leapfrogCalls s' = leapfrogCalls s0 @ new"
       "length new + 2 ^ depth' (initialDoubling q p)
          \<le> max (2 ^ depth' (initialDoubling q p)) (2 ^ nat (maxTreeDepth (this S)))"
    by blast
  from n(2) assms(1) have "length new + 1 \<le> 2 ^ d"
    by (simp add: initialDoubling_def)
  with n(1) s0 show ?thesis
    by (intro exI [of _ new]) simp
qed

lemma trajectory_sampler2:
  "trajectory stdNormal (constRng (7 / 10) 0) (initialRun stdNormal sampler2 [(''x'', 0)] io0) =
     (Inr \<lparr> positionMinus' = [(''x'', 0)], positionPlus' = [(''x'', 0)],
            momentumMinus' = [(''x'', 0)], momentumPlus' = [(''x'', 0)],
            proposedParams = [(''x'', 0)], depth' = 2, stop' = False,
            nValid' = 4, alpha' = 3, nAlpha' = 3 \<rparr>,
      \<lparr> nRandom = 6, nNormal = 1, leapfrogCalls = [1 / 10, 1 / 10, 1 / 10] \<rparr>)"
  by (simp add: trajectory_def initialRun_def freeVariableNames_stdNormal randomNormal_constRng
        hamiltonian_at_rest io0_def random_constRng initialDoubling_def sampler2_def
        doublingBody_def leaf_at_rest isUTurn_at_rest Let_def deltaMax_def)

theorem doubling_leapfrog_bound_witness:
  "\<exists>new. leapfrogCalls (snd (trajectory stdNormal (constRng (7 / 10) 0)
              (initialRun stdNormal sampler2 [(''x'', 0)] io0))) = [] @ new \<and>
         length new = 3 \<and> length new \<le> 2 ^ 2 - 1"
proof -
  have m: "maxTreeDepth (this (initialRun stdNormal sampler2 [(''x'', 0)] io0)) = int 2"
    by (simp add: initialRun_def sampler2_def)
  have w: "leapfrogCalls (world (initialRun stdNormal sampler2 [(''x'', 0)] io0)) = []"
    by (simp add: initialRun_def io0_def)
  from doubling_leapfrog_bound [OF m trajectory_sampler2]
  show ?thesis by (simp add: trajectory_sampler2 w)
qed

section \<open>Proportional selection of the candidate\<close>

text \<open>A subtree of depth \<open>d\<close> that does not stop has all its \<open>2 ^ d\<close> leaves valid.\<close>

lemma buildTree_full:
  "buildTree mdl g q p slice direction depth eps H0 s = (Inr t, s') \<Longrightarrow> \<not> stop t \<Longrightarrow>
   nValid t = 2 ^ depth"
proof (induction depth arbitrary: q p s t s')
  case 0
  then show ?case
    by (elim buildTree_leaf_cases) (auto split: if_splits)
next
  case (Suc depth)
  obtain r1 s1 where b1: "buildTree mdl g q p slice direction depth eps H0 s = (r1, s1)"
    by fastforce
  from Suc.prems b1 obtain tree1 where t1: "r1 = Inr tree1" "\<not> stop tree1"
    by (cases r1) (auto split: if_splits)
  define q2 where "q2 = (if direction = 1 then positionPlus tree1 else positionMinus tree1)"
  define p2 where "p2 = (if direction = 1 then momentumPlus tree1 else momentumMinus tree1)"
  obtain r2 s2 where b2: "buildTree mdl g q2 p2 slice direction depth eps H0 s1 = (r2, s2)"
    by fastforce
  from Suc.prems b1 t1 b2 obtain tree2 where
    t2: "r2 = Inr tree2" "\<not> stop tree2" "nValid t = nValid tree1 + nValid tree2"
    by (cases r2) (auto simp: Let_def q2_def p2_def)
  from Suc.IH [of q p s tree1 s1] Suc.IH [of q2 p2 s1 tree2 s2] b1 b2 t1 t2
  show ?case by simp
qed

lemma doublingBody_cases:
  assumes "doublingBody mdl g sampler slice H0 L s = (Inr L', s')"
  obtains tree s1 where
    "(let direction = (if random g (nRandom s) < 0.5 then - 1 else 1 :: int)
      in buildTree mdl g (if direction = 1 then positionPlus' L else positionMinus' L)
           (if direction = 1 then momentumPlus' L else momentumMinus' L)
           slice direction (depth' L) (stepSize sampler) H0 (s\<lparr>nRandom := Suc (nRandom s)\<rparr>))
       = (Inr tree, s1)"
    and "proposedParams L' =
           (if \<not> stop tree \<and> random g (nRandom s1) < real (nValid tree) / real (nValid' L)
            then positionPrime tree else proposedParams L)"
    and "s' = (if \<not> stop tree then s1\<lparr>nRandom := Suc (nRandom s1)\<rparr> else s1)"
    and "stop tree \<longrightarrow> stop' L'"
    and "nValid' L' = nValid' L + nValid tree"
    and "alpha' L' = alpha' L + alpha tree"
    and "nAlpha' L' = nAlpha' L + nAlpha tree"
    and "depth' L' = Suc (depth' L)"
  using assms unfolding doublingBody_def Let_def
  by (auto split: prod.splits sum.splits if_splits)

text \<open>
  The invariant of the doubling loop: while it has not stopped, the accumulated number of
  valid states is \<open>2 ^ depth\<close>.
\<close>

lemma initialDoubling_full:
  "nValid' (initialDoubling q p) = 2 ^ depth' (initialDoubling q p)"
  by (simp add: initialDoubling_def)

lemma doublingBody_full:
  assumes "doublingBody mdl g sampler slice H0 L s = (Inr L', s')"
    and "nValid' L = 2 ^ depth' L" and "\<not> stop' L'"
  shows "nValid' L' = 2 ^ depth' L'"
proof -
  from assms(1) obtain tree s1 where
    b: "(let direction = (if random g (nRandom s) < 0.5 then - 1 else 1 :: int)
      in buildTree mdl g (if direction = 1 then positionPlus' L else positionMinus' L)
           (if direction = 1 then momentumPlus' L else momentumMinus' L)
           slice direction (depth' L) (stepSize sampler) H0 (s\<lparr>nRandom := Suc (nRandom s)\<rparr>))
       = (Inr tree, s1)"
    and st: "stop tree \<longrightarrow> stop' L'"
    and n: "nValid' L' = nValid' L + nValid tree"
    and d: "depth' L' = Suc (depth' L)"
    by (rule doublingBody_cases)
  from st assms(3) have "\<not> stop tree" by blast
  with b have "nValid tree = 2 ^ depth' L"
    unfolding Let_def by (rule buildTree_full)
  with n d assms(2) show ?thesis by simp
qed

text \<open>
  C1. \<open>Math.random()\<close> is uniform on \<open>[0, 1)\<close>, so a branch taken when the draw is
  below \<open>q\<close>, with \<open>0 \<le> q \<le> 1\<close>, is taken with probability \<open>q\<close>. In \<open>buildTree\<close>,
  when the first half does not stop and both halves are built, the candidate is the
  second half's exactly when the next draw is below
  \<open>nValid second / max (nValid first + nValid second) 1\<close>, a number in \<open>[0, 1]\<close>, and
  the first half's otherwise. In the doubling loop, when the new subtree does not stop,
  the running candidate is replaced by the subtree's exactly when the next draw is below
  \<open>nValid subtree / nValid accumulated\<close>; when the subtree stops, the candidate is kept
  and no draw is taken. Under the loop invariant \<open>nValid accumulated = 2 ^ depth\<close> that
  ratio is \<open>1\<close>.
\<close>

theorem proportional_selection:
  "(buildTree mdl g q p slice direction depth eps H0 s = (Inr tree1, s1) \<and> \<not> stop tree1 \<and>
    buildTree mdl g (if direction = 1 then positionPlus tree1 else positionMinus tree1)
      (if direction = 1 then momentumPlus tree1 else momentumMinus tree1)
      slice direction depth eps H0 s1 = (Inr tree2, s2) \<longrightarrow>
    (\<exists>t. buildTree mdl g q p slice direction (Suc depth) eps H0 s
            = (Inr t, s2\<lparr>nRandom := Suc (nRandom s2)\<rparr>) \<and>
         positionPrime t =
           (if random g (nRandom s2)
                 < real (nValid tree2) / real (max (nValid tree1 + nValid tree2) 1)
            then positionPrime tree2 else positionPrime tree1) \<and>
         0 \<le> real (nValid tree2) / real (max (nValid tree1 + nValid tree2) 1) \<and>
         real (nValid tree2) / real (max (nValid tree1 + nValid tree2) 1) \<le> 1)) \<and>
   (doublingBody mdl g sampler slice H0 L s = (Inr L', s') \<longrightarrow>
    (\<exists>tree s1.
       (let direction = (if random g (nRandom s) < 0.5 then - 1 else 1 :: int)
        in buildTree mdl g (if direction = 1 then positionPlus' L else positionMinus' L)
             (if direction = 1 then momentumPlus' L else momentumMinus' L)
             slice direction (depth' L) (stepSize sampler) H0 (s\<lparr>nRandom := Suc (nRandom s)\<rparr>))
         = (Inr tree, s1) \<and>
       (\<not> stop tree \<longrightarrow>
          proposedParams L' =
            (if random g (nRandom s1) < real (nValid tree) / real (nValid' L)
             then positionPrime tree else proposedParams L) \<and>
          s' = s1\<lparr>nRandom := Suc (nRandom s1)\<rparr>) \<and>
       (stop tree \<longrightarrow> proposedParams L' = proposedParams L \<and> s' = s1) \<and>
       (\<not> stop tree \<and> nValid' L = 2 ^ depth' L \<longrightarrow>
          real (nValid tree) / real (nValid' L) = 1)))"
proof (intro conjI impI)
  assume a: "buildTree mdl g q p slice direction depth eps H0 s = (Inr tree1, s1) \<and> \<not> stop tree1 \<and>
    buildTree mdl g (if direction = 1 then positionPlus tree1 else positionMinus tree1)
      (if direction = 1 then momentumPlus tree1 else momentumMinus tree1)
      slice direction depth eps H0 s1 = (Inr tree2, s2)"
  have le: "real (nValid tree2) \<le> real (max (nValid tree1 + nValid tree2) 1)" by simp
  have pos: "0 < real (max (nValid tree1 + nValid tree2) 1)" by simp
  have r1: "real (nValid tree2) / real (max (nValid tree1 + nValid tree2) 1) \<le> 1"
    using le pos by (simp only: divide_le_eq_1_pos)
  have r0: "0 \<le> real (nValid tree2) / real (max (nValid tree1 + nValid tree2) 1)"
    by simp
  from a r0 r1 show "\<exists>t. buildTree mdl g q p slice direction (Suc depth) eps H0 s
            = (Inr t, s2\<lparr>nRandom := Suc (nRandom s2)\<rparr>) \<and>
         positionPrime t =
           (if random g (nRandom s2)
                 < real (nValid tree2) / real (max (nValid tree1 + nValid tree2) 1)
            then positionPrime tree2 else positionPrime tree1) \<and>
         0 \<le> real (nValid tree2) / real (max (nValid tree1 + nValid tree2) 1) \<and>
         real (nValid tree2) / real (max (nValid tree1 + nValid tree2) 1) \<le> 1"
    by (simp add: Let_def)
next
  assume a: "doublingBody mdl g sampler slice H0 L s = (Inr L', s')"
  from a obtain tree s1 where
    b: "(let direction = (if random g (nRandom s) < 0.5 then - 1 else 1 :: int)
      in buildTree mdl g (if direction = 1 then positionPlus' L else positionMinus' L)
           (if direction = 1 then momentumPlus' L else momentumMinus' L)
           slice direction (depth' L) (stepSize sampler) H0 (s\<lparr>nRandom := Suc (nRandom s)\<rparr>))
       = (Inr tree, s1)"
    and pr: "proposedParams L' =
           (if \<not> stop tree \<and> random g (nRandom s1) < real (nValid tree) / real (nValid' L)
            then positionPrime tree else proposedParams L)"
    and s': "s' = (if \<not> stop tree then s1\<lparr>nRandom := Suc (nRandom s1)\<rparr> else s1)"
    by (rule doublingBody_cases)
  have full: "\<not> stop tree \<and> nValid' L = 2 ^ depth' L \<longrightarrow> real (nValid tree) / real (nValid' L) = 1"
  proof
    assume h: "\<not> stop tree \<and> nValid' L = 2 ^ depth' L"
    with b have "nValid tree = 2 ^ depth' L"
      unfolding Let_def by (intro buildTree_full) auto
    with h show "real (nValid tree) / real (nValid' L) = 1" by simp
  qed
  from b pr s' full show "\<exists>tree s1.
       (let direction = (if random g (nRandom s) < 0.5 then - 1 else 1 :: int)
        in buildTree mdl g (if direction = 1 then positionPlus' L else positionMinus' L)
             (if direction = 1 then momentumPlus' L else momentumMinus' L)
             slice direction (depth' L) (stepSize sampler) H0 (s\<lparr>nRandom := Suc (nRandom s)\<rparr>))
         = (Inr tree, s1) \<and>
       (\<not> stop tree \<longrightarrow>
          proposedParams L' =
            (if random g (nRandom s1) < real (nValid tree) / real (nValid' L)
             then positionPrime tree else proposedParams L) \<and>
          s' = s1\<lparr>nRandom := Suc (nRandom s1)\<rparr>) \<and>
       (stop tree \<longrightarrow> proposedParams L' = proposedParams L \<and> s' = s1) \<and>
       (\<not> stop tree \<and> nValid' L = 2 ^ depth' L \<longrightarrow>
          real (nValid tree) / real (nValid' L) = 1)"
    by (intro exI [of _ tree] exI [of _ s1]) simp
qed

theorem proportional_selection_witness:
  "(\<exists>t. buildTree flat (constRng (1 / 4) 0) [(''x'', 0)] [(''x'', 1)] (1 / 2) 1 (Suc 0) 1 (1 / 2) io0
          = (Inr t, \<lparr> nRandom = 1, nNormal = 0, leapfrogCalls = [1, 1] \<rparr>) \<and>
        positionPrime t = [(''x'', 2)]) \<and>
   (\<exists>L' s'. doublingBody flat (constRng (7 / 10) 0) sampler2 (1 / 2) (1 / 2)
              (initialDoubling [(''x'', 0)] [(''x'', 1)]) io0 = (Inr L', s') \<and>
        proposedParams L' = [(''x'', 1 / 10)] \<and> nRandom s' = 2)"
proof
  let ?g = "constRng (1 / 4) 0"
  let ?t1 = "\<lparr> positionMinus = [(''x'', 1)], positionPlus = [(''x'', 1)],
              momentumMinus = [(''x'', 1)], momentumPlus = [(''x'', 1)],
              positionPrime = [(''x'', 1)], nValid = 1, stop = False, alpha = 1, nAlpha = 1 \<rparr>"
  let ?t2 = "\<lparr> positionMinus = [(''x'', 2)], positionPlus = [(''x'', 2)],
              momentumMinus = [(''x'', 1)], momentumPlus = [(''x'', 1)],
              positionPrime = [(''x'', 2)], nValid = 1, stop = False, alpha = 1, nAlpha = 1 \<rparr>"
  let ?s1 = "\<lparr> nRandom = 0, nNormal = 0, leapfrogCalls = [1] \<rparr>"
  let ?s2 = "\<lparr> nRandom = 0, nNormal = 0, leapfrogCalls = [1, 1] \<rparr>"
  have b1: "buildTree flat ?g [(''x'', 0)] [(''x'', 1)] (1 / 2) 1 0 1 (1 / 2) io0 = (Inr ?t1, ?s1)"
    by (simp add: leapfrog_flat hamiltonian_flat io0_def deltaMax_def)
  have b2: "buildTree flat ?g (if (1::int) = 1 then positionPlus ?t1 else positionMinus ?t1)
      (if (1::int) = 1 then momentumPlus ?t1 else momentumMinus ?t1) (1 / 2) 1 0 1 (1 / 2) ?s1
      = (Inr ?t2, ?s2)"
    by (simp add: leapfrog_flat hamiltonian_flat deltaMax_def)
  have "buildTree flat ?g [(''x'', 0)] [(''x'', 1)] (1 / 2) 1 0 1 (1 / 2) io0 = (Inr ?t1, ?s1) \<and>
      \<not> stop ?t1 \<and>
      buildTree flat ?g (if (1::int) = 1 then positionPlus ?t1 else positionMinus ?t1)
      (if (1::int) = 1 then momentumPlus ?t1 else momentumMinus ?t1) (1 / 2) 1 0 1 (1 / 2) ?s1
      = (Inr ?t2, ?s2)"
    using b1 b2 by simp
  from proportional_selection [THEN conjunct1, rule_format, OF this]
  show "\<exists>t. buildTree flat ?g [(''x'', 0)] [(''x'', 1)] (1 / 2) 1 (Suc 0) 1 (1 / 2) io0
          = (Inr t, \<lparr> nRandom = 1, nNormal = 0, leapfrogCalls = [1, 1] \<rparr>) \<and>
        positionPrime t = [(''x'', 2)]"
    by (simp add: random_constRng)
next
  let ?g = "constRng (7 / 10) 0"
  let ?L0 = "initialDoubling [(''x'', 0)] [(''x'', 1)]"
  obtain L' s' where body: "doublingBody flat ?g sampler2 (1 / 2) (1 / 2) ?L0 io0 = (Inr L', s')"
    by (simp add: doublingBody_def random_constRng initialDoubling_def sampler2_def
          leapfrog_flat hamiltonian_flat io0_def deltaMax_def Let_def)
  from proportional_selection [THEN conjunct2, rule_format, OF body]
  have "proposedParams L' = [(''x'', 1 / 10)] \<and> nRandom s' = 2"
    by (auto simp: random_constRng initialDoubling_def sampler2_def
          leapfrog_flat hamiltonian_flat io0_def deltaMax_def Let_def)
  with body show "\<exists>L' s'. doublingBody flat ?g sampler2 (1 / 2) (1 / 2) ?L0 io0 = (Inr L', s') \<and>
        proposedParams L' = [(''x'', 1 / 10)] \<and> nRandom s' = 2"
    by blast
qed

section \<open>Dual averaging during warmup\<close>

lemma sampleIteration_cases:
  assumes "sampleIteration mdl g nWarmup thin i S = Inr S'"
  obtains L s1 where "trajectory mdl g S = (Inr L, s1)"
    and "hBar S' = hBar (adaptStepSize nWarmup i (alpha' L / real (max (nAlpha' L) 1)) S)"
    and "logStepSize S' = logStepSize (adaptStepSize nWarmup i (alpha' L / real (max (nAlpha' L) 1)) S)"
    and "logStepSizeBar S' = logStepSizeBar (adaptStepSize nWarmup i (alpha' L / real (max (nAlpha' L) 1)) S)"
    and "this S' = this (adaptStepSize nWarmup i (alpha' L / real (max (nAlpha' L) 1)) S)"
    and "world S' = s1"
proof -
  obtain r s1 where t: "trajectory mdl g S = (r, s1)" by fastforce
  with assms obtain L where r: "r = Inr L"
    by (cases r) (auto simp: sampleIteration_def)
  show thesis
  proof (rule that [of L s1])
    show "trajectory mdl g S = (Inr L, s1)" using t r by simp
  qed (use assms t r in \<open>auto simp: sampleIteration_def Let_def adaptStepSize_def split: if_splits\<close>)
qed

lemma sampleIteration_constants:
  assumes "sampleIteration mdl g nWarmup thin i S = Inr S'"
  shows "mu (this S') = mu (this S) \<and> gamma (this S') = gamma (this S) \<and>
         t0 (this S') = t0 (this S) \<and> kappa (this S') = kappa (this S) \<and>
         targetAcceptance (this S') = targetAcceptance (this S) \<and>
         maxTreeDepth (this S') = maxTreeDepth (this S)"
  using assms by (elim sampleIteration_cases) (simp add: adaptStepSize_def Let_def)

lemma iterations_constants:
  "iterations mdl g nWarmup thin S0 k = Inr S \<Longrightarrow>
     mu (this S) = mu (this S0) \<and> gamma (this S) = gamma (this S0) \<and>
     t0 (this S) = t0 (this S0) \<and> kappa (this S) = kappa (this S0) \<and>
     targetAcceptance (this S) = targetAcceptance (this S0) \<and>
     maxTreeDepth (this S) = maxTreeDepth (this S0)"
proof (induction k arbitrary: S)
  case 0
  then show ?case by simp
next
  case (Suc k)
  then obtain Sk where k: "iterations mdl g nWarmup thin S0 k = Inr Sk"
    and it: "sampleIteration mdl g nWarmup thin k Sk = Inr S"
    by (auto split: sum.splits)
  from Suc.IH [OF k] sampleIteration_constants [OF it] show ?case by simp
qed

lemma run1:
  "iterations stdNormal (constRng (7 / 10) 0) 2 1 (initialRun stdNormal sampler1 [(''x'', 0)] io0) (Suc 0) =
     Inr \<lparr> this = sampler1\<lparr>stepSize := exp (4 / 11)\<rparr>,
           currentParams = [(''x'', 0)],
           logStepSize = 4 / 11, logStepSizeBar = 4 / 11, hBar = - (1 / 55),
           acceptedCount = 1, acceptedTotal = 1,
           trace = [(''x'', [])],
           world = \<lparr> nRandom = 3, nNormal = 1, leapfrogCalls = [1 / 10] \<rparr> \<rparr>"
  by (simp add: sampleIteration_def trajectory_at_rest initialRun_def sampler1_def io0_def
        adaptStepSize_def Let_def freeVariableNames_stdNormal pushSample_def)

lemma run2:
  "iterations stdNormal (constRng (7 / 10) 0) 2 1 (initialRun stdNormal sampler1 [(''x'', 0)] io0) (Suc (Suc 0)) =
     Inr \<lparr> this = sampler1\<lparr>stepSize := exp (2 * sqrt 2 / 3)\<rparr>,
           currentParams = [(''x'', 0)],
           logStepSize = 2 * sqrt 2 / 3,
           logStepSizeBar = 2 powr (- (3 / 4)) * (2 * sqrt 2 / 3) + (1 - 2 powr (- (3 / 4))) * (4 / 11),
           hBar = - (1 / 30),
           acceptedCount = 2, acceptedTotal = 2,
           trace = [(''x'', [])],
           world = \<lparr> nRandom = 6, nNormal = 2, leapfrogCalls = [1 / 10, exp (4 / 11)] \<rparr> \<rparr>"
  by (simp add: sampleIteration_def trajectory_at_rest initialRun_def sampler1_def io0_def
        adaptStepSize_def Let_def freeVariableNames_stdNormal pushSample_def field_simps)

text \<open>
  C4. In a run of \<open>sample\<close> on an instance made by the constructor, every outer
  iteration \<open>i < nWarmup\<close> that returns updates the adapter by the dual-averaging
  formulas, with \<open>iterAcceptRate = alpha / max nAlpha 1\<close> taken from the doubling loop
  of that iteration and with \<open>mu = log (10 * eps0)\<close>, \<open>gamma = 0.05\<close>, \<open>t0 = 10\<close>,
  \<open>kappa = 0.75\<close> and, when the argument is left out, \<open>targetAcceptance = 0.8\<close>.
\<close>

theorem dual_averaging_update:
  assumes c: "NUTS_constructor stepSizeArg maxTreeDepthArg targetAcceptanceArg = Inr sampler"
    and r: "iterations mdl g nWarmup thin (initialRun mdl sampler initialValues s) i = Inr S"
    and w: "i < nWarmup"
    and it: "iterations mdl g nWarmup thin (initialRun mdl sampler initialValues s) (Suc i) = Inr S'"
  shows "\<exists>L s1. trajectory mdl g S = (Inr L, s1) \<and>
    (let eps0 = (case stepSizeArg of None \<Rightarrow> 0.01 | Some v \<Rightarrow> v);
         target = (case targetAcceptanceArg of None \<Rightarrow> 0.8 | Some v \<Rightarrow> v);
         iterAcceptRate = alpha' L / real (max (nAlpha' L) 1);
         eta = 1 / (real i + 1 + 10)
     in hBar S' = (1 - eta) * hBar S + eta * (target - iterAcceptRate) \<and>
        logStepSize S' = ln (10 * eps0) - (sqrt (real i + 1) / 0.05) * hBar S' \<and>
        logStepSizeBar S' = (real i + 1) powr (- 0.75) * logStepSize S'
                              + (1 - (real i + 1) powr (- 0.75)) * logStepSizeBar S \<and>
        stepSize (this S') = exp (logStepSize S'))"
proof -
  from r it have si: "sampleIteration mdl g nWarmup thin i S = Inr S'" by simp
  from iterations_constants [OF r] c
  have k: "mu (this S) = ln (10 * (case stepSizeArg of None \<Rightarrow> 0.01 | Some v \<Rightarrow> v))"
    "gamma (this S) = 0.05" "t0 (this S) = 10" "kappa (this S) = 0.75"
    "targetAcceptance (this S) = (case targetAcceptanceArg of None \<Rightarrow> 0.8 | Some v \<Rightarrow> v)"
    by (auto simp: NUTS_constructor_def initialRun_def Let_def)
  from si obtain L s1 where t: "trajectory mdl g S = (Inr L, s1)"
    and h: "hBar S' = hBar (adaptStepSize nWarmup i (alpha' L / real (max (nAlpha' L) 1)) S)"
    and l: "logStepSize S' = logStepSize (adaptStepSize nWarmup i (alpha' L / real (max (nAlpha' L) 1)) S)"
    and b: "logStepSizeBar S' = logStepSizeBar (adaptStepSize nWarmup i (alpha' L / real (max (nAlpha' L) 1)) S)"
    and e: "this S' = this (adaptStepSize nWarmup i (alpha' L / real (max (nAlpha' L) 1)) S)"
    by (rule sampleIteration_cases)
  show ?thesis
    using t h l b e w k
    by (intro exI [of _ L] exI [of _ s1]) (simp add: adaptStepSize_def Let_def)
qed

theorem dual_averaging_update_witness:
  "\<exists>S S'. iterations stdNormal (constRng (7 / 10) 0) 2 1
              (initialRun stdNormal sampler1 [(''x'', 0)] io0) (Suc 0) = Inr S \<and>
          iterations stdNormal (constRng (7 / 10) 0) 2 1
              (initialRun stdNormal sampler1 [(''x'', 0)] io0) (Suc (Suc 0)) = Inr S' \<and>
          hBar S = - (1 / 55) \<and>
          hBar S' = (1 - 1 / 12) * (- (1 / 55)) + (1 / 12) * (4 / 5 - 1) \<and>
          logStepSize S' = 0 - (sqrt 2 / (1 / 20)) * hBar S' \<and>
          stepSize (this S') = exp (logStepSize S')"
proof -
  have w: "Suc 0 < 2" by simp
  from dual_averaging_update [OF NUTS_constructor_sampler1 run1 w run2]
  show ?thesis
    unfolding run1 run2 by simp
qed

section \<open>The step size after warmup\<close>

lemma sampleIteration_after_warmup:
  assumes "sampleIteration mdl g nWarmup thin i S = Inr S'" and "nWarmup \<le> i"
  shows "hBar S' = hBar S \<and> logStepSize S' = logStepSize S \<and>
         logStepSizeBar S' = logStepSizeBar S \<and>
         stepSize (this S') = (if i = nWarmup then exp (logStepSizeBar S) else stepSize (this S))"
  using assms by (elim sampleIteration_cases) (simp add: adaptStepSize_def)

lemma iterations_prefix:
  "iterations mdl g nWarmup thin S0 k = Inr Sk \<Longrightarrow> j \<le> k \<Longrightarrow>
   \<exists>Sj. iterations mdl g nWarmup thin S0 j = Inr Sj"
proof (induction k arbitrary: Sk)
  case 0
  then show ?case by simp
next
  case (Suc k)
  show ?case
  proof (cases "j = Suc k")
    case True
    with Suc.prems show ?thesis by blast
  next
    case False
    with Suc.prems have "j \<le> k" by simp
    moreover from Suc.prems obtain S where "iterations mdl g nWarmup thin S0 k = Inr S"
      by (auto split: sum.splits)
    ultimately show ?thesis using Suc.IH by blast
  qed
qed

lemma frozen_after_warmup:
  assumes w: "iterations mdl g nWarmup thin S0 nWarmup = Inr Sw"
  shows "nWarmup \<le> k \<Longrightarrow> iterations mdl g nWarmup thin S0 k = Inr Sk \<Longrightarrow>
         hBar Sk = hBar Sw \<and> logStepSize Sk = logStepSize Sw \<and>
         logStepSizeBar Sk = logStepSizeBar Sw \<and>
         (nWarmup < k \<longrightarrow> stepSize (this Sk) = exp (logStepSizeBar Sw))"
proof (induction k arbitrary: Sk rule: dec_induct)
  case base
  with w show ?case by simp
next
  case (step k)
  from step.prems obtain S where k: "iterations mdl g nWarmup thin S0 k = Inr S"
    and it: "sampleIteration mdl g nWarmup thin k S = Inr Sk"
    by (auto split: sum.splits)
  from step.IH [OF k] sampleIteration_after_warmup [OF it step.hyps(1)]
  show ?case by auto
qed

lemma average_below_last:
  "2 powr (- (3 / 4)) * (2 * sqrt 2 / 3) + (1 - 2 powr (- (3 / 4))) * (4 / 11) < 2 * sqrt 2 / (3 :: real)"
proof -
  define c :: real where "c = 2 powr (- (3 / 4))"
  have "c < 2 powr 0" unfolding c_def by (rule powr_less_mono) simp_all
  then have c: "c < 1" by simp
  have "(1 :: real) < sqrt 2" by simp
  then have "(6 :: real) < 11 * sqrt 2" by linarith
  then have a: "(4 / 11 :: real) < 2 * sqrt 2 / 3" by (simp add: field_simps)
  have "(1 - c) * (4 / 11) < (1 - c) * (2 * sqrt 2 / 3)"
    using c a by (simp only: mult_less_cancel_left_pos diff_gt_0_iff_gt)
  then have "c * (2 * sqrt 2 / 3) + (1 - c) * (4 / 11) < 2 * sqrt 2 / 3"
    by (simp add: algebra_simps)
  then show ?thesis by (simp only: c_def)
qed

lemma run3:
  "iterations stdNormal (constRng (7 / 10) 0) 2 1 (initialRun stdNormal sampler1 [(''x'', 0)] io0)
          (Suc (Suc (Suc 0))) =
     Inr \<lparr> this = sampler1\<lparr>stepSize :=
              exp (2 powr (- (3 / 4)) * (2 * sqrt 2 / 3) + (1 - 2 powr (- (3 / 4))) * (4 / 11))\<rparr>,
           currentParams = [(''x'', 0)],
           logStepSize = 2 * sqrt 2 / 3,
           logStepSizeBar = 2 powr (- (3 / 4)) * (2 * sqrt 2 / 3) + (1 - 2 powr (- (3 / 4))) * (4 / 11),
           hBar = - (1 / 30),
           acceptedCount = 3, acceptedTotal = 3,
           trace = [(''x'', [Some 0])],
           world = \<lparr> nRandom = 9, nNormal = 3,
                     leapfrogCalls = [1 / 10, exp (4 / 11), exp (2 * sqrt 2 / 3)] \<rparr> \<rparr>"
    unfolding iterations.simps(2) [of _ _ _ _ _ "Suc (Suc 0)"] run2
    by (simp add: sampleIteration_def trajectory_at_rest sampler1_def
        adaptStepSize_def Let_def freeVariableNames_stdNormal pushSample_def)

text \<open>
  C5, as the source has it. \<open>sample\<close> assigns \<open>exp logStepSizeBar\<close> at the end of the
  iteration \<open>i = nWarmup\<close>, after that iteration has built its trajectory. With
  \<open>nWarmup = 2\<close> on the standard normal target at rest, the third leapfrog call, made
  by iteration \<open>i = 2\<close> whose sample is stored, has the step size \<open>exp (2 * sqrt 2 / 3)\<close>
  left by the last warmup iteration, which is not the averaged step size the run ends
  with.
\<close>

theorem first_sampling_iteration_counterexample:
  "iterations stdNormal (constRng (7 / 10) 0) 2 1 (initialRun stdNormal sampler1 [(''x'', 0)] io0) 3 =
     Inr \<lparr> this = sampler1\<lparr>stepSize :=
              exp (2 powr (- (3 / 4)) * (2 * sqrt 2 / 3) + (1 - 2 powr (- (3 / 4))) * (4 / 11))\<rparr>,
           currentParams = [(''x'', 0)],
           logStepSize = 2 * sqrt 2 / 3,
           logStepSizeBar = 2 powr (- (3 / 4)) * (2 * sqrt 2 / 3) + (1 - 2 powr (- (3 / 4))) * (4 / 11),
           hBar = - (1 / 30),
           acceptedCount = 3, acceptedTotal = 3,
           trace = [(''x'', [Some 0])],
           world = \<lparr> nRandom = 9, nNormal = 3,
                     leapfrogCalls = [1 / 10, exp (4 / 11), exp (2 * sqrt 2 / 3)] \<rparr> \<rparr> \<and>
   exp (2 * sqrt 2 / 3) \<noteq>
     (exp (2 powr (- (3 / 4)) * (2 * sqrt 2 / 3) + (1 - 2 powr (- (3 / 4))) * (4 / 11)) :: real)"
proof
  show "iterations stdNormal (constRng (7 / 10) 0) 2 1 (initialRun stdNormal sampler1 [(''x'', 0)] io0) 3 =
     Inr \<lparr> this = sampler1\<lparr>stepSize :=
              exp (2 powr (- (3 / 4)) * (2 * sqrt 2 / 3) + (1 - 2 powr (- (3 / 4))) * (4 / 11))\<rparr>,
           currentParams = [(''x'', 0)],
           logStepSize = 2 * sqrt 2 / 3,
           logStepSizeBar = 2 powr (- (3 / 4)) * (2 * sqrt 2 / 3) + (1 - 2 powr (- (3 / 4))) * (4 / 11),
           hBar = - (1 / 30),
           acceptedCount = 3, acceptedTotal = 3,
           trace = [(''x'', [Some 0])],
           world = \<lparr> nRandom = 9, nNormal = 3,
                     leapfrogCalls = [1 / 10, exp (4 / 11), exp (2 * sqrt 2 / 3)] \<rparr> \<rparr>"
    using run3 by (simp only: numeral_3_eq_3)
next
  show "exp (2 * sqrt 2 / 3) \<noteq>
     (exp (2 powr (- (3 / 4)) * (2 * sqrt 2 / 3) + (1 - 2 powr (- (3 / 4))) * (4 / 11)) :: real)"
    using average_below_last by simp
qed

text \<open>
  C5, amended. Let \<open>Sw\<close> be the state after the \<open>nWarmup\<close> warmup iterations. Before
  every later iteration, \<open>hBar\<close>, \<open>logStepSize\<close> and \<open>logStepSizeBar\<close> are those of
  \<open>Sw\<close>; and before every iteration \<open>k > nWarmup\<close> the step size is
  \<open>exp (logStepSizeBar Sw)\<close>, and every leapfrog call of the trajectory built in that
  iteration has this step size, with either sign.
\<close>

theorem step_size_frozen:
  assumes "iterations mdl g nWarmup thin S0 k = Inr Sk" and "nWarmup \<le> k"
  shows "\<exists>Sw. iterations mdl g nWarmup thin S0 nWarmup = Inr Sw \<and>
           hBar Sk = hBar Sw \<and> logStepSize Sk = logStepSize Sw \<and>
           logStepSizeBar Sk = logStepSizeBar Sw \<and>
           (nWarmup < k \<longrightarrow>
              stepSize (this Sk) = exp (logStepSizeBar Sw) \<and>
              (\<forall>r s'. trajectory mdl g Sk = (r, s') \<longrightarrow>
                 (\<exists>new. leapfrogCalls s' = leapfrogCalls (world Sk) @ new \<and>
                        set new \<subseteq> {exp (logStepSizeBar Sw), - exp (logStepSizeBar Sw)})))"
proof -
  from iterations_prefix [OF assms] obtain Sw where
    w: "iterations mdl g nWarmup thin S0 nWarmup = Inr Sw" by blast
  from frozen_after_warmup [OF w assms(2) assms(1)]
  have f: "hBar Sk = hBar Sw" "logStepSize Sk = logStepSize Sw"
    "logStepSizeBar Sk = logStepSizeBar Sw"
    "nWarmup < k \<longrightarrow> stepSize (this Sk) = exp (logStepSizeBar Sw)"
    by simp_all
  have "\<forall>r s'. trajectory mdl g Sk = (r, s') \<longrightarrow>
          (\<exists>new. leapfrogCalls s' = leapfrogCalls (world Sk) @ new \<and>
                 set new \<subseteq> {exp (logStepSizeBar Sw), - exp (logStepSizeBar Sw)})"
    if "nWarmup < k"
    using trajectory_steps [of mdl g Sk] f(4) that by simp
  with w f show ?thesis by blast
qed

theorem step_size_frozen_witness:
  "\<exists>S3 Sw. iterations stdNormal (constRng (7 / 10) 0) 2 1
                (initialRun stdNormal sampler1 [(''x'', 0)] io0) (Suc (Suc (Suc 0))) = Inr S3 \<and>
      iterations stdNormal (constRng (7 / 10) 0) 2 1
                (initialRun stdNormal sampler1 [(''x'', 0)] io0) 2 = Inr Sw \<and>
      hBar S3 = hBar Sw \<and> logStepSize S3 = logStepSize Sw \<and> logStepSizeBar S3 = logStepSizeBar Sw \<and>
      stepSize (this S3) = exp (logStepSizeBar Sw) \<and>
      leapfrogCalls (snd (trajectory stdNormal (constRng (7 / 10) 0) S3))
        = leapfrogCalls (world S3) @ [exp (logStepSizeBar Sw)]"
proof -
  let ?S3 = "\<lparr> this = sampler1\<lparr>stepSize :=
              exp (2 powr (- (3 / 4)) * (2 * sqrt 2 / 3) + (1 - 2 powr (- (3 / 4))) * (4 / 11))\<rparr>,
           currentParams = [(''x'', 0)],
           logStepSize = 2 * sqrt 2 / 3,
           logStepSizeBar = 2 powr (- (3 / 4)) * (2 * sqrt 2 / 3) + (1 - 2 powr (- (3 / 4))) * (4 / 11),
           hBar = - (1 / 30),
           acceptedCount = 3, acceptedTotal = 3,
           trace = [(''x'', [Some 0])],
           world = \<lparr> nRandom = 9, nNormal = 3,
                     leapfrogCalls = [1 / 10, exp (4 / 11), exp (2 * sqrt 2 / 3)] \<rparr> \<rparr>"
  have le: "(2 :: nat) \<le> Suc (Suc (Suc 0))" by simp
  have t: "leapfrogCalls (snd (trajectory stdNormal (constRng (7 / 10) 0) ?S3))
        = leapfrogCalls (world ?S3) @ [stepSize (this ?S3)]"
    by (subst trajectory_at_rest) (simp_all add: sampler1_def)
  from step_size_frozen [OF run3 le] obtain Sw where
    w: "iterations stdNormal (constRng (7 / 10) 0) 2 1
                (initialRun stdNormal sampler1 [(''x'', 0)] io0) 2 = Inr Sw"
    and f: "hBar ?S3 = hBar Sw" "logStepSize ?S3 = logStepSize Sw"
       "logStepSizeBar ?S3 = logStepSizeBar Sw" "stepSize (this ?S3) = exp (logStepSizeBar Sw)"
    by auto
  from t f(4) have "leapfrogCalls (snd (trajectory stdNormal (constRng (7 / 10) 0) ?S3))
        = leapfrogCalls (world ?S3) @ [exp (logStepSizeBar Sw)]"
    by (simp only:)
  with run3 w f show ?thesis by blast
qed

section \<open>Construction\<close>

text \<open>
  C8, as the source has it. Neither constructor checks its arguments: a step size of
  \<open>-1\<close>, a depth or step count of \<open>0\<close> and a target acceptance of \<open>2\<close> are stored
  as given and no exception is raised.
\<close>

theorem constructors_accept_invalid_counterexample:
  "NUTS_constructor (Some (- 1)) (Some 0) (Some 2) =
     Inr \<lparr> stepSize = - 1, maxTreeDepth = 0, targetAcceptance = 2,
           mu = ln (- 10), gamma = 1 / 20, t0 = 10, kappa = 3 / 4 \<rparr> \<and>
   HamiltonianMC_constructor (Some (- 1)) (Some 0) = Inr \<lparr> hmcStepSize = - 1, nSteps = 0 \<rparr>"
  by (simp add: NUTS_constructor_def HamiltonianMC_constructor_def)

text \<open>
  C8, amended. Construction succeeds for every configuration, the ones the claim calls
  valid among them, and stores the arguments or their defaults.
\<close>

theorem constructors_total:
  "(\<exists>n. NUTS_constructor stepSizeArg maxTreeDepthArg targetAcceptanceArg = Inr n \<and>
        stepSize n = (case stepSizeArg of None \<Rightarrow> 0.01 | Some v \<Rightarrow> v) \<and>
        maxTreeDepth n = (case maxTreeDepthArg of None \<Rightarrow> 10 | Some v \<Rightarrow> v) \<and>
        targetAcceptance n = (case targetAcceptanceArg of None \<Rightarrow> 0.8 | Some v \<Rightarrow> v)) \<and>
   (\<exists>h. HamiltonianMC_constructor hmcStepSizeArg nStepsArg = Inr h \<and>
        hmcStepSize h = (case hmcStepSizeArg of None \<Rightarrow> 0.01 | Some v \<Rightarrow> v) \<and>
        nSteps h = (case nStepsArg of None \<Rightarrow> 10 | Some v \<Rightarrow> v))"
  by (simp add: NUTS_constructor_def HamiltonianMC_constructor_def Let_def)

theorem constructors_total_witness:
  "(\<exists>n. NUTS_constructor (Some (1 / 100)) (Some 10) (Some (4 / 5)) = Inr n \<and>
        stepSize n = 1 / 100 \<and> maxTreeDepth n = 10 \<and> targetAcceptance n = 4 / 5) \<and>
   (\<exists>h. HamiltonianMC_constructor (Some (1 / 100)) (Some 10) = Inr h \<and>
        hmcStepSize h = 1 / 100 \<and> nSteps h = 10)"
  using constructors_total [of "Some (1 / 100)" "Some 10" "Some (4 / 5)" "Some (1 / 100)" "Some 10"]
  by simp

end
